theory Spec2Isabelle
  imports Complex_Main
begin

section \<open>The sylon agent (src/server/api.js)\<close>

text \<open>
  The agent samples host metrics and posts them as JSON to a remote endpoint.
  JavaScript numbers that hold counts (tick counters, status codes, attempt numbers,
  byte sizes) are modelled as integers. The other numbers are reals: in the sampler
  every arithmetic operation rounds its result to a double, as the code's does; the
  backoff delay of the delivery client, built from \<^verbatim>\<open>Math.random()\<close> and the
  configuration's backoff fields, is kept exact. Strings are lists of
  8-bit characters. Calls into the Node.js runtime (the network, the clock, the file
  system, the random generators) are parameters of the model, and every call the code
  makes that the outside can observe is recorded as an event.
\<close>

subsection \<open>Configuration\<close>

record config =
  endpoint :: string
  api_key :: string
  interval_seconds :: int
  timeout_seconds :: int
  max_retries :: int
  backoff_base :: real
  jitter :: real

definition DEFAULT_CONFIG :: config where
  "DEFAULT_CONFIG =
     \<lparr> endpoint = ''NULL'', api_key = ''NULL'', interval_seconds = 300,
       timeout_seconds = 10, max_retries = 5, backoff_base = 2, jitter = 3 / 10 \<rparr>"

subsection \<open>Numbers\<close>

text \<open>
  A JavaScript number is an IEEE double. The sampler divides, multiplies and subtracts
  such numbers and reads one back from decimal digits, and each of these operations
  rounds its exact result to the nearest double, to the even one of two. \<open>fl\<close> is that
  rounding to 53 significant bits; the exponent range of doubles is not modelled, since
  no value of the sampler comes near its ends.

  \<open>bit_length n\<close> is the number of binary digits of \<open>n\<close>; \<open>binade x\<close> is the exponent
  \<open>e\<close> with \<open>2^e \<le> |x| < 2^(e+1)\<close>; \<open>rne y\<close> is the integer nearest to \<open>y\<close>, the even
  one of two.
\<close>

function bit_length :: "nat \<Rightarrow> nat" where
  "bit_length n = (if n = 0 then 0 else Suc (bit_length (n div 2)))"
  by pat_completeness auto
termination
  by (relation "measure (\<lambda>n. n)") auto

declare bit_length.simps [simp del]

definition binade :: "real \<Rightarrow> int" where
  "binade x =
     (if 1 \<le> \<bar>x\<bar> then int (bit_length (nat \<lfloor>\<bar>x\<bar>\<rfloor>)) - 1
      else - int (bit_length (nat (\<lceil>1 / \<bar>x\<bar>\<rceil> - 1))))"

definition rne :: "real \<Rightarrow> int" where
  "rne y =
     (if y - of_int \<lfloor>y\<rfloor> < 1 / 2 then \<lfloor>y\<rfloor>
      else if 1 / 2 < y - of_int \<lfloor>y\<rfloor> then \<lfloor>y\<rfloor> + 1
      else if even \<lfloor>y\<rfloor> then \<lfloor>y\<rfloor> else \<lfloor>y\<rfloor> + 1)"

definition fl :: "real \<Rightarrow> real" where
  "fl x =
     (if x = 0 then 0
      else of_int (rne (x / 2 powi (binade x - 52))) * 2 powi (binade x - 52))"

text \<open>
  \<^verbatim>\<open>x.toFixed(f)\<close>, as the number its digits denote: \<^verbatim>\<open>toFixed\<close> works on the
  absolute value of the double \<open>x\<close>, takes the integer \<open>n\<close> with \<open>n / 10^f\<close> closest to
  it (the larger one of two), and prints numbers from \<open>10^21\<close> on unrounded.
  \<^verbatim>\<open>parseFloat\<close> reads such digits back as the nearest double.
\<close>

definition toFixed :: "nat \<Rightarrow> real \<Rightarrow> real" where
  "toFixed f x =
     (if 10 ^ 21 \<le> \<bar>x\<bar> then x
      else sgn x * (of_int \<lfloor>\<bar>x\<bar> * 10 ^ f + 1 / 2\<rfloor> / 10 ^ f))"

definition parseFloat :: "real \<Rightarrow> real" where
  "parseFloat digits = fl digits"

subsection \<open>Log lines and observable events\<close>

text \<open>
  One constructor for each call of \<^verbatim>\<open>log\<close> in the source, with the arguments
  substituted for its \<^verbatim>\<open>%s\<close> places:
  \<^item> \<open>LogNotConfigured\<close>: ERROR, the endpoint is not configured, sending abandoned;
  \<^item> \<open>LogAccepted status\<close>: INFO, payload accepted;
  \<^item> \<open>LogClientError status body\<close>: ERROR, client error while sending;
  \<^item> \<open>LogServerError status attempt max_retries\<close>: WARN, server error;
  \<^item> \<open>LogRequestFailed attempt max_retries message\<close>: WARN, the request failed;
  \<^item> \<open>LogRetryIn seconds\<close>: INFO, next attempt in \<^verbatim>\<open>sleepTime.toFixed(2)\<close> seconds;
  \<^item> \<open>LogAllFailed\<close>: ERROR, all attempts failed;
  \<^item> \<open>LogMachineIdError message\<close>: ERROR, the persisted machine id cannot be read or
    written;
  \<^item> \<open>LogDiskSimulated\<close>: WARN, the disk metrics are simulated;
  \<^item> \<open>LogCycleError message\<close>: ERROR, an error was thrown in the first run or in the
    main loop.
\<close>

datatype log_entry =
    LogNotConfigured
  | LogAccepted int
  | LogClientError int string
  | LogServerError int nat int
  | LogRequestFailed nat int string
  | LogRetryIn real
  | LogAllFailed
  | LogMachineIdError string
  | LogDiskSimulated
  | LogCycleError string

datatype header_value = HeaderText string | HeaderNumber nat

record request_options =
  opt_hostname :: "string option"
  opt_port :: nat
  opt_path :: "string option"
  opt_method :: string
  opt_headers :: "(string \<times> header_value) list"
  opt_timeout :: int

text \<open>
  \<open>Request attempt options postData\<close> is one \<^verbatim>\<open>https.request(options, ...)\<close> with
  \<^verbatim>\<open>req.write(postData)\<close>; \<open>SetTimeout ms\<close> is the \<^verbatim>\<open>setTimeout(resolve, ms)\<close> the
  code awaits between two attempts; \<open>Log l\<close> is a call of \<^verbatim>\<open>log\<close>.
\<close>

datatype event =
    Request nat request_options string
  | SetTimeout real
  | Log log_entry

fun is_request :: "event \<Rightarrow> bool" where
  "is_request (Request _ _ _) = True"
| "is_request _ = False"

fun is_log :: "event \<Rightarrow> bool" where
  "is_log (Log _) = True"
| "is_log _ = False"

definition requests_of :: "event list \<Rightarrow> event list" where
  "requests_of evs = filter is_request evs"

definition network_and_sleeps :: "event list \<Rightarrow> event list" where
  "network_and_sleeps evs = filter (\<lambda>e. \<not> is_log e) evs"

subsection \<open>The delivery client: \<^verbatim>\<open>sendPayload\<close>\<close>

text \<open>
  What \<^verbatim>\<open>url.parse\<close> returns: the fields of Node's legacy URL object, \<open>None\<close> for
  \<^verbatim>\<open>null\<close>. The parser itself belongs to the runtime and is a parameter.
\<close>

record parsed_url =
  url_protocol :: "string option"
  url_auth :: "string option"
  url_host :: "string option"
  url_port :: "string option"
  url_hostname :: "string option"
  url_hash :: "string option"
  url_search :: "string option"
  url_query :: "string option"
  url_pathname :: "string option"
  url_path :: "string option"
  url_href :: string

text \<open>
  How one awaited request ends: the promise resolves with the status code and the body,
  or it rejects with an error (transport error, or the timeout destroying the request).
\<close>

datatype attempt_result = Response int string | RequestError string

text \<open>
  The runtime as the delivery client sees it. \<open>https_request options postData k\<close> is
  how the request of attempt \<open>k\<close> ends; \<open>math_random k\<close> is the value \<^verbatim>\<open>Math.random()\<close>
  returns in attempt \<open>k\<close> (the loop calls it at most once in an attempt).
\<close>

record 'p node_env =
  url_parse :: "string \<Rightarrow> parsed_url"
  json_stringify :: "'p \<Rightarrow> string"
  https_request :: "request_options \<Rightarrow> string \<Rightarrow> nat \<Rightarrow> attempt_result"
  math_random :: "nat \<Rightarrow> real"

definition build_options :: "config \<Rightarrow> parsed_url \<Rightarrow> string \<Rightarrow> request_options" where
  "build_options cfg u postData =
     \<lparr> opt_hostname = url_hostname u,
       opt_port = 443,
       opt_path = url_pathname u,
       opt_method = ''POST'',
       opt_headers =
         [(''Content-Type'', HeaderText ''application/json''),
          (''Content-Length'', HeaderNumber (length postData)),
          (''Authorization'', HeaderText (''Bearer '' @ api_key cfg))],
       opt_timeout = timeout_seconds cfg * 1000 \<rparr>"

text \<open>
  The body of the \<^verbatim>\<open>try\<close> block of one loop iteration: \<open>Finished r\<close> when the function
  returns \<open>r\<close> from inside the loop, \<open>Failed\<close> when control reaches the code after the
  \<^verbatim>\<open>try\<close>/\<^verbatim>\<open>catch\<close>.
\<close>

datatype attempt_outcome = Finished bool "event list" | Failed "event list"

definition attempt_once ::
  "config \<Rightarrow> request_options \<Rightarrow> string \<Rightarrow> (nat \<Rightarrow> attempt_result) \<Rightarrow> nat \<Rightarrow> attempt_outcome" where
  "attempt_once cfg options postData net attempt =
     (case net attempt of
        Response statusCode body \<Rightarrow>
          if 200 \<le> statusCode \<and> statusCode < 300 then
            Finished True [Request attempt options postData, Log (LogAccepted statusCode)]
          else if 400 \<le> statusCode \<and> statusCode < 500 then
            Finished False
              [Request attempt options postData, Log (LogClientError statusCode body)]
          else
            Failed [Request attempt options postData,
                    Log (LogServerError statusCode attempt (max_retries cfg))]
      | RequestError msg \<Rightarrow>
          Failed [Request attempt options postData,
                  Log (LogRequestFailed attempt (max_retries cfg) msg)])"

text \<open>The \<^verbatim>\<open>if (attempt < max_retries)\<close> block: backoff with jitter.\<close>

definition sleepTime :: "config \<Rightarrow> (nat \<Rightarrow> real) \<Rightarrow> nat \<Rightarrow> real" where
  "sleepTime cfg rnd attempt = backoff_base cfg ^ attempt + rnd attempt * jitter cfg"

definition backoff :: "config \<Rightarrow> (nat \<Rightarrow> real) \<Rightarrow> nat \<Rightarrow> event list" where
  "backoff cfg rnd attempt =
     (if int attempt < max_retries cfg then
        [Log (LogRetryIn (toFixed 2 (sleepTime cfg rnd attempt))),
         SetTimeout (sleepTime cfg rnd attempt * 1000)]
      else [])"

fun prepend :: "event list \<Rightarrow> bool \<times> event list \<Rightarrow> bool \<times> event list" where
  "prepend evs (r, rest) = (r, evs @ rest)"

text \<open>
  The loop \<^verbatim>\<open>for (let attempt = 1; attempt <= max_retries; attempt++)\<close> from \<open>attempt\<close>
  on, and the two statements after it. The result is the returned boolean and the
  events in the order they happen.
\<close>

function attempt_loop ::
  "config \<Rightarrow> request_options \<Rightarrow> string \<Rightarrow> (nat \<Rightarrow> attempt_result) \<Rightarrow> (nat \<Rightarrow> real) \<Rightarrow> nat
     \<Rightarrow> bool \<times> event list" where
  "attempt_loop cfg options postData net rnd attempt =
     (if int attempt \<le> max_retries cfg then
        (case attempt_once cfg options postData net attempt of
           Finished r evs \<Rightarrow> (r, evs)
         | Failed evs \<Rightarrow>
             prepend (evs @ backoff cfg rnd attempt)
               (attempt_loop cfg options postData net rnd (Suc attempt)))
      else (False, [Log LogAllFailed]))"
  by pat_completeness auto
termination
  by (relation "measure (\<lambda>(cfg, options, postData, net, rnd, attempt).
        nat (max_retries cfg + 1 - int attempt))") auto

declare attempt_loop.simps [simp del]

definition sendPayload :: "'p node_env \<Rightarrow> config \<Rightarrow> 'p \<Rightarrow> bool \<times> event list" where
  "sendPayload env cfg payload =
     (if endpoint cfg = ''NULL'' then (False, [Log LogNotConfigured])
      else
        let u = url_parse env (endpoint cfg);
            postData = json_stringify env payload;
            options = build_options cfg u postData
        in attempt_loop cfg options postData (https_request env options postData)
             (math_random env) 1)"

text \<open>The options and the body of every request of one call of \<^verbatim>\<open>sendPayload\<close>.\<close>

definition delivery_options :: "'p node_env \<Rightarrow> config \<Rightarrow> 'p \<Rightarrow> request_options" where
  "delivery_options env cfg payload =
     build_options cfg (url_parse env (endpoint cfg)) (json_stringify env payload)"

text \<open>
  The three outcomes of the specification, read off what the code returns and logs:
  \<open>Delivered\<close> is the result \<open>True\<close>; \<open>Rejected\<close> is the result \<open>False\<close> after the
  log line \<open>LogClientError status body\<close> (or \<open>LogNotConfigured\<close>); \<open>Exhausted\<close> is the
  result \<open>False\<close> after the log line \<open>LogAllFailed\<close>.
\<close>

text \<open>An attempt result that the loop retries: an error, or a status outside 2xx and 4xx.\<close>

definition transient :: "attempt_result \<Rightarrow> bool" where
  "transient r =
     (case r of
        RequestError msg \<Rightarrow> True
      | Response statusCode body \<Rightarrow>
          \<not> (200 \<le> statusCode \<and> statusCode < 300) \<and> \<not> (400 \<le> statusCode \<and> statusCode < 500))"

text \<open>
  What one failed attempt \<open>k\<close> shows to the outside apart from its log lines: the
  request, and the timer when another attempt follows.
\<close>

definition round_events :: "config \<Rightarrow> request_options \<Rightarrow> string \<Rightarrow> (nat \<Rightarrow> real) \<Rightarrow> nat \<Rightarrow> event list" where
  "round_events cfg options postData rnd k =
     Request k options postData #
       (if int k < max_retries cfg then [SetTimeout (sleepTime cfg rnd k * 1000)] else [])"

subsection \<open>A concrete endpoint for the example runs\<close>

text \<open>
  The endpoint \<^verbatim>\<open>https://collector.example.com:8443/ingest?token=abc\<close> as Node's
  \<^verbatim>\<open>url.parse\<close> splits it, a configuration that names it and keeps the other defaults,
  and a runtime whose network answers as \<open>net\<close> says and whose random generator
  always returns one half.
\<close>

definition example_url :: parsed_url where
  "example_url =
     \<lparr> url_protocol = Some ''https:'', url_auth = None,
       url_host = Some ''collector.example.com:8443'', url_port = Some ''8443'',
       url_hostname = Some ''collector.example.com'', url_hash = None,
       url_search = Some ''?token=abc'', url_query = Some ''token=abc'',
       url_pathname = Some ''/ingest'', url_path = Some ''/ingest?token=abc'',
       url_href = ''https://collector.example.com:8443/ingest?token=abc'' \<rparr>"

definition example_config :: config where
  "example_config =
     DEFAULT_CONFIG \<lparr> endpoint := ''https://collector.example.com:8443/ingest?token=abc'',
                      api_key := ''secret'' \<rparr>"

definition example_env :: "(nat \<Rightarrow> attempt_result) \<Rightarrow> 'p node_env" where
  "example_env net =
     \<lparr> url_parse = (\<lambda>s. example_url), json_stringify = (\<lambda>p. ''{}''),
       https_request = (\<lambda>options postData k. net k), math_random = (\<lambda>k. 1 / 2) \<rparr>"

definition example_options :: request_options where
  "example_options =
     \<lparr> opt_hostname = Some ''collector.example.com'', opt_port = 443,
       opt_path = Some ''/ingest'', opt_method = ''POST'',
       opt_headers = [(''Content-Type'', HeaderText ''application/json''),
                      (''Content-Length'', HeaderNumber 2),
                      (''Authorization'', HeaderText ''Bearer secret'')],
       opt_timeout = 10000 \<rparr>"

subsection \<open>CPU utilisation: \<^verbatim>\<open>calculateCpuPercent\<close>\<close>

text \<open>
  One element of \<^verbatim>\<open>os.cpus()\<close>: the \<^verbatim>\<open>times\<close> of a logical CPU, in milliseconds.
\<close>

record cpu_times =
  times_user :: int
  times_nice :: int
  times_sys :: int
  times_idle :: int
  times_irq :: int

text \<open>What the sampler keeps of one CPU: \<^verbatim>\<open>{ idle, total }\<close>.\<close>

record cpu_tick =
  tick_idle :: int
  tick_total :: int

text \<open>A thrown JavaScript error, with its message.\<close>

datatype js_error = TypeError string | FsError string

fun message :: "js_error \<Rightarrow> string" where
  "message (TypeError m) = m"
| "message (FsError m) = m"

definition currentTick :: "cpu_times \<Rightarrow> int" where
  "currentTick tms =
     times_user tms + times_nice tms + times_sys tms + times_idle tms + times_irq tms"

definition currentCpuTicks :: "cpu_times list \<Rightarrow> cpu_tick list" where
  "currentCpuTicks cpus =
     map (\<lambda>cpu. \<lparr> tick_idle = times_idle cpu, tick_total = currentTick cpu \<rparr>) cpus"

text \<open>
  The loop \<^verbatim>\<open>for (let i = 0; i < cpus.length; i++)\<close> from index \<open>i\<close> on, with the two
  running sums. \<^verbatim>\<open>previousCpuTicks[i]\<close> is \<^verbatim>\<open>undefined\<close> past the end of the stored
  array, and reading its \<^verbatim>\<open>idle\<close> throws a \<^verbatim>\<open>TypeError\<close>.
\<close>

function difference_loop ::
  "cpu_tick list \<Rightarrow> cpu_tick list \<Rightarrow> nat \<Rightarrow> int \<times> int \<Rightarrow> js_error + int \<times> int" where
  "difference_loop cur prev i (idleDifference, totalDifference) =
     (if i < length cur then
        (if i < length prev then
           difference_loop cur prev (Suc i)
             (idleDifference + (tick_idle (cur ! i) - tick_idle (prev ! i)),
              totalDifference + (tick_total (cur ! i) - tick_total (prev ! i)))
         else Inl (TypeError ''Cannot read properties of undefined''))
      else Inr (idleDifference, totalDifference))"
  by pat_completeness auto
termination
  by (relation "measure (\<lambda>(cur, prev, i, acc). length cur - i)") auto

declare difference_loop.simps [simp del]

text \<open>
  \<^verbatim>\<open>calculateCpuPercent\<close>, with the module variable \<^verbatim>\<open>previousCpuTicks\<close> passed in
  and returned (\<open>None\<close> is \<^verbatim>\<open>null\<close>). When the loop throws, the assignment after it has
  not run and the stored state is the old one. The tick sums are integers, which
  doubles hold exactly below \<open>2^53\<close>; the quotient, the product and the difference
  are each rounded to a double before \<^verbatim>\<open>toFixed(1)\<close> sees the value.
\<close>

definition calculateCpuPercent ::
  "cpu_tick list option \<Rightarrow> cpu_times list \<Rightarrow> (js_error + real) \<times> cpu_tick list option" where
  "calculateCpuPercent previousCpuTicks cpus =
     (case previousCpuTicks of
        None \<Rightarrow> (Inr 0, Some (currentCpuTicks cpus))
      | Some prev \<Rightarrow>
          (case difference_loop (currentCpuTicks cpus) prev 0 (0, 0) of
             Inl e \<Rightarrow> (Inl e, Some prev)
           | Inr (idleDifference, totalDifference) \<Rightarrow>
               (if totalDifference > 0 then
                  (let idlePercent = fl (real_of_int idleDifference / real_of_int totalDifference)
                   in Inr (parseFloat (toFixed 1 (fl (100 - fl (idlePercent * 100))))))
                else Inr 0,
                Some (currentCpuTicks cpus))))"

text \<open>
  The deltas in the specification's words: the sums, over all logical CPUs of the
  current sample, of idle now minus idle before and of total now minus total before.
\<close>

definition idle_delta :: "cpu_tick list \<Rightarrow> cpu_tick list \<Rightarrow> int" where
  "idle_delta prev cur = (\<Sum>i = 0..<length cur. tick_idle (cur ! i) - tick_idle (prev ! i))"

definition total_delta :: "cpu_tick list \<Rightarrow> cpu_tick list \<Rightarrow> int" where
  "total_delta prev cur = (\<Sum>i = 0..<length cur. tick_total (cur ! i) - tick_total (prev ! i))"

text \<open>
  The sample state in the specification's words: for a logical CPU its idle ticks and
  its total ticks, the sum of the user, nice, system, idle and interrupt categories.
\<close>

definition idle_and_total :: "cpu_times \<Rightarrow> cpu_tick" where
  "idle_and_total c =
     \<lparr> tick_idle = times_idle c,
       tick_total = times_user c + times_nice c + times_sys c + times_idle c + times_irq c \<rparr>"

text \<open>No counter of the later reading is below the same counter of the earlier one.\<close>

definition times_le :: "cpu_times \<Rightarrow> cpu_times \<Rightarrow> bool" where
  "times_le a b =
     (times_user a \<le> times_user b \<and> times_nice a \<le> times_nice b \<and>
      times_sys a \<le> times_sys b \<and> times_idle a \<le> times_idle b \<and>
      times_irq a \<le> times_irq b)"

text \<open>
  Example readings: two readings of a machine with two logical CPUs; a reading of one
  CPU before and after 80 ticks of which 49 were idle; and a reading of one CPU whose
  user counter went back by 1000 while its idle counter went on by 1900.
\<close>

definition sample_before :: "cpu_times list" where
  "sample_before =
     [\<lparr> times_user = 100, times_nice = 5, times_sys = 50, times_idle = 840, times_irq = 5 \<rparr>,
      \<lparr> times_user = 200, times_nice = 10, times_sys = 100, times_idle = 680, times_irq = 10 \<rparr>]"

definition sample_after :: "cpu_times list" where
  "sample_after =
     [\<lparr> times_user = 150, times_nice = 10, times_sys = 70, times_idle = 1060, times_irq = 10 \<rparr>,
      \<lparr> times_user = 560, times_nice = 20, times_sys = 140, times_idle = 760, times_irq = 20 \<rparr>]"

definition tie_before :: "cpu_times list" where
  "tie_before =
     [\<lparr> times_user = 0, times_nice = 0, times_sys = 0, times_idle = 0, times_irq = 0 \<rparr>]"

definition tie_after :: "cpu_times list" where
  "tie_after =
     [\<lparr> times_user = 31, times_nice = 0, times_sys = 0, times_idle = 49, times_irq = 0 \<rparr>]"

definition backwards_before :: "cpu_times list" where
  "backwards_before =
     [\<lparr> times_user = 1000, times_nice = 0, times_sys = 0, times_idle = 0, times_irq = 0 \<rparr>]"

definition backwards_after :: "cpu_times list" where
  "backwards_after =
     [\<lparr> times_user = 0, times_nice = 0, times_sys = 0, times_idle = 1900, times_irq = 0 \<rparr>]"

subsection \<open>Disk usage: \<^verbatim>\<open>getDiskUsage\<close>\<close>

record disk_usage =
  disk_total :: int
  disk_used :: int
  disk_free :: int
  disk_percent :: real

definition getDiskUsage :: "disk_usage \<times> event list" where
  "getDiskUsage =
     (\<lparr> disk_total = 100000000000, disk_used = 40000000000, disk_free = 60000000000,
        disk_percent = 40 \<rparr>,
      [Log LogDiskSimulated])"

subsection \<open>Machine identity: \<^verbatim>\<open>getMachineId\<close>\<close>

text \<open>
  The part of the outside world the identity resolver touches: a file system small
  enough for the four \<^verbatim>\<open>fs\<close> calls it makes, and the generator behind
  \<^verbatim>\<open>crypto.randomUUID()\<close>. A path names a readable file with its content, something
  that exists and cannot be read as a file, a directory, or nothing. \<open>fs_can_write p\<close>
  says whether the process may create the entry \<open>p\<close>. \<open>uuid_source k\<close> is the \<open>k\<close>-th
  identifier the generator hands out and \<open>uuid_drawn\<close> counts the calls so far.
\<close>

datatype fs_node = File string | Unreadable | Directory

record world =
  fs_nodes :: "string \<Rightarrow> fs_node option"
  fs_can_write :: "string \<Rightarrow> bool"
  uuid_source :: "nat \<Rightarrow> string"
  uuid_drawn :: nat

definition existsSync :: "world \<Rightarrow> string \<Rightarrow> bool" where
  "existsSync w p = (fs_nodes w p \<noteq> None)"

definition readFileSync :: "world \<Rightarrow> string \<Rightarrow> js_error + string" where
  "readFileSync w p =
     (case fs_nodes w p of
        Some (File content) \<Rightarrow> Inr content
      | Some Unreadable \<Rightarrow> Inl (FsError ''EACCES'')
      | Some Directory \<Rightarrow> Inl (FsError ''EISDIR'')
      | None \<Rightarrow> Inl (FsError ''ENOENT''))"

definition mkdirSync :: "world \<Rightarrow> string \<Rightarrow> js_error + world" where
  "mkdirSync w dir =
     (case fs_nodes w dir of
        Some Directory \<Rightarrow> Inr w
      | Some other \<Rightarrow> Inl (FsError ''EEXIST'')
      | None \<Rightarrow>
          if fs_can_write w dir then Inr (w \<lparr> fs_nodes := (fs_nodes w)(dir \<mapsto> Directory) \<rparr>)
          else Inl (FsError ''EACCES''))"

text \<open>\<^verbatim>\<open>path.dirname\<close>, for a path without a trailing or a doubled slash.\<close>

definition dirname :: "string \<Rightarrow> string" where
  "dirname p =
     (case dropWhile (\<lambda>c. c \<noteq> CHR ''/'') (rev p) of
        [] \<Rightarrow> ''.''
      | slash # r \<Rightarrow> if r = [] then ''/'' else rev r)"

definition writeFileSync :: "world \<Rightarrow> string \<Rightarrow> string \<Rightarrow> js_error + world" where
  "writeFileSync w p content =
     (if fs_nodes w (dirname p) \<noteq> Some Directory then Inl (FsError ''ENOENT'')
      else if fs_nodes w p = Some Directory then Inl (FsError ''EISDIR'')
      else if fs_can_write w p then Inr (w \<lparr> fs_nodes := (fs_nodes w)(p \<mapsto> File content) \<rparr>)
      else Inl (FsError ''EACCES''))"

definition randomUUID :: "world \<Rightarrow> string \<times> world" where
  "randomUUID w = (uuid_source w (uuid_drawn w), w \<lparr> uuid_drawn := Suc (uuid_drawn w) \<rparr>)"

text \<open>
  \<^verbatim>\<open>String.prototype.trim\<close> on 8-bit characters: tab, line feed, vertical tab, form
  feed, carriage return, space and no-break space are removed from both ends.
\<close>

definition is_whitespace :: "char \<Rightarrow> bool" where
  "is_whitespace c =
     (c \<in> set [CHR 0x09, CHR 0x0A, CHR 0x0B, CHR 0x0C, CHR 0x0D, CHR 0x20, CHR 0xA0])"

definition trim :: "string \<Rightarrow> string" where
  "trim s = rev (dropWhile is_whitespace (rev (dropWhile is_whitespace s)))"

text \<open>
  Step 1, the loop over the systemd/dbus paths: the first path that exists and can be
  read gives the identity; a read that throws is caught and the next path is tried.
\<close>

fun read_first :: "world \<Rightarrow> string list \<Rightarrow> string option" where
  "read_first w [] = None"
| "read_first w (p # ps) =
     (if existsSync w p then
        (case readFileSync w p of
           Inr content \<Rightarrow> Some (trim content)
         | Inl e \<Rightarrow> read_first w ps)
      else read_first w ps)"

text \<open>
  The two statements that persist a new identifier: create the directory when it does
  not exist, then write the file. Either may throw; \<open>Inl\<close> is the error together with
  the world at that moment, which has the new directory when only the write failed.
\<close>

definition persist :: "world \<Rightarrow> string \<Rightarrow> string \<Rightarrow> js_error \<times> world + world" where
  "persist w persistencePath mid =
     (let dir = dirname persistencePath in
      case (if \<not> existsSync w dir then mkdirSync w dir else Inr w) of
        Inl e \<Rightarrow> Inl (e, w)
      | Inr w' \<Rightarrow>
          (case writeFileSync w' persistencePath mid of
             Inl e \<Rightarrow> Inl (e, w')
           | Inr w'' \<Rightarrow> Inr w''))"

text \<open>
  Step 2, the \<^verbatim>\<open>try\<close> block: \<open>Inr\<close> is its \<^verbatim>\<open>return\<close>, \<open>Inl\<close> the error it throws
  together with the world at that moment.
\<close>

definition read_or_create :: "world \<Rightarrow> string \<Rightarrow> js_error \<times> world + string \<times> world" where
  "read_or_create w persistencePath =
     (if existsSync w persistencePath then
        (case readFileSync w persistencePath of
           Inr content \<Rightarrow> Inr (trim content, w)
         | Inl e \<Rightarrow> Inl (e, w))
      else
        (let (mid, w1) = randomUUID w in
         case persist w1 persistencePath mid of
           Inl (e, w2) \<Rightarrow> Inl (e, w2)
         | Inr w2 \<Rightarrow> Inr (mid, w2)))"

definition os_id_paths :: "string list" where
  "os_id_paths = [''/etc/machine-id'', ''/var/lib/dbus/machine-id'']"

definition persistencePath :: string where
  "persistencePath = ''/var/lib/sylon/id''"

text \<open>
  \<^verbatim>\<open>getMachineId\<close>: the identity, the log lines and the world it leaves. The
  \<^verbatim>\<open>catch\<close> block logs the error and returns a new random identifier.
\<close>

definition getMachineId :: "world \<Rightarrow> string \<times> event list \<times> world" where
  "getMachineId w =
     (case read_first w os_id_paths of
        Some mid \<Rightarrow> (mid, [], w)
      | None \<Rightarrow>
          (case read_or_create w persistencePath of
             Inr (mid, w') \<Rightarrow> (mid, [], w')
           | Inl (e, w') \<Rightarrow>
               (let (mid, w'') = randomUUID w'
                in (mid, [Log (LogMachineIdError (message e))], w''))))"

text \<open>
  Example worlds: four identifiers the generator hands out in turn; a machine without
  any identity file where the agent may not write; the same where it may; the same
  where it may create the directory and nothing else; and a machine with
  \<^verbatim>\<open>/etc/machine-id\<close>.
\<close>

definition uuid_a :: string where "uuid_a = ''0b9e7c1a-5d2f-4e58-9a61-3f0c8d7e2b41''"

definition uuid_b :: string where "uuid_b = ''7a1d3c5e-9f20-4b6a-8c3d-52e4f6a1b0c9''"

definition uuid_c :: string where "uuid_c = ''c2f4e6a8-1b3d-4f5a-b7c9-d0e1f2a3b4c5''"

definition uuid_d :: string where "uuid_d = ''e8d6c4b2-a091-4827-a6b5-c4d3e2f1a0b9''"

definition example_uuids :: "nat \<Rightarrow> string" where
  "example_uuids k = (if k = 0 then uuid_a else if k = 1 then uuid_b else if k = 2 then uuid_c else uuid_d)"



definition world_directory_only :: world where
  "world_directory_only =
     \<lparr> fs_nodes = Map.empty, fs_can_write = (\<lambda>p. p = ''/var/lib/sylon''),
       uuid_source = example_uuids, uuid_drawn = 0 \<rparr>"

definition world_with_machine_id :: world where
  "world_with_machine_id =
     \<lparr> fs_nodes = [''/etc/machine-id'' \<mapsto> File (''4c4c4544004a3510804ab7c04f563432'' @ [CHR 0x0A])],
       fs_can_write = (\<lambda>p. False), uuid_source = example_uuids, uuid_drawn = 0 \<rparr>"

subsection \<open>The metric sampler: \<^verbatim>\<open>collectMetrics\<close>\<close>

text \<open>
  What one tick reads from the operating system: the clock
  (\<^verbatim>\<open>new Date().toISOString()\<close>) and the \<^verbatim>\<open>os\<close> module. \<^verbatim>\<open>os.cpus()\<close> is taken as
  one reading for the tick.
\<close>

record net_address =
  addr_family :: string
  addr_internal :: bool
  addr_address :: string

record os_env =
  date_iso :: string
  os_hostname :: string
  os_type :: string
  os_release :: string
  os_version :: string
  os_cpus :: "cpu_times list"
  os_totalmem :: int
  os_freemem :: int
  os_loadavg :: "real \<times> real \<times> real"
  os_uptime :: real
  os_networkInterfaces :: "(string \<times> net_address list) list"

record platform_info =
  plat_system :: string
  plat_release :: string
  plat_version :: string

record memory_info =
  mem_total :: int
  mem_available :: int
  mem_percent :: "real option"

record snapshot =
  snap_timestamp :: string
  snap_hostname :: string
  snap_machine_id :: string
  snap_platform :: platform_info
  snap_cpu_percent :: real
  snap_cpu_count_logical :: nat
  snap_cpu_count_physical :: nat
  snap_memory :: memory_info
  snap_disk :: disk_usage
  snap_loadavg :: "real \<times> real \<times> real"
  snap_uptime_seconds :: real
  snap_ipv4 :: "string option"

text \<open>\<^verbatim>\<open>.replace(/\.\d{3}Z$/, 'Z')\<close>: a final dot, three digits and Z become Z.\<close>

definition is_digit :: "char \<Rightarrow> bool" where
  "is_digit c = (c \<in> set ''0123456789'')"

definition strip_millis :: "string \<Rightarrow> string" where
  "strip_millis s =
     (case rev s of
        z # d3 # d2 # d1 # dot # rest \<Rightarrow>
          if z = CHR ''Z'' \<and> is_digit d3 \<and> is_digit d2 \<and> is_digit d1 \<and> dot = CHR ''.''
          then rev rest @ ''Z'' else s
      | other \<Rightarrow> s)"

text \<open>
  Memory percent: \<^verbatim>\<open>parseFloat(((usedMem / totalMem) * 100).toFixed(1))\<close>, the
  quotient and the product rounded to doubles; with \<^verbatim>\<open>totalMem\<close> zero the quotient
  is not a finite number (\<open>None\<close>).
\<close>

definition memPercent :: "int \<Rightarrow> int \<Rightarrow> real option" where
  "memPercent usedMem totalMem =
     (if totalMem = 0 then None
      else Some (parseFloat
                   (toFixed 1 (fl (fl (real_of_int usedMem / real_of_int totalMem) * 100)))))"

text \<open>
  The two nested loops over the network interfaces: the inner one stops at the first
  IPv4 address that is not internal, the outer one stops once \<^verbatim>\<open>ipv4\<close> is truthy.
\<close>

fun scan_addresses :: "net_address list \<Rightarrow> string option \<Rightarrow> string option" where
  "scan_addresses [] ipv4 = ipv4"
| "scan_addresses (addr # rest) ipv4 =
     (if addr_family addr = ''IPv4'' \<and> \<not> addr_internal addr then Some (addr_address addr)
      else scan_addresses rest ipv4)"

fun scan_interfaces :: "(string \<times> net_address list) list \<Rightarrow> string option \<Rightarrow> string option" where
  "scan_interfaces [] ipv4 = ipv4"
| "scan_interfaces ((ifname, addrs) # rest) ipv4 =
     (let found = scan_addresses addrs ipv4
      in if found \<noteq> None \<and> found \<noteq> Some [] then found else scan_interfaces rest found)"

text \<open>
  The state the agent carries from tick to tick: the outside world of the identity
  resolver and the module variable \<^verbatim>\<open>previousCpuTicks\<close>.
\<close>

record agent_state =
  st_world :: world
  st_previousCpuTicks :: "cpu_tick list option"

text \<open>
  \<^verbatim>\<open>collectMetrics\<close>: the snapshot or the error thrown, the log lines, and the state
  left behind. The identity is resolved anew on every call.
\<close>

definition collectMetrics ::
  "os_env \<Rightarrow> agent_state \<Rightarrow> (js_error + snapshot) \<times> event list \<times> agent_state" where
  "collectMetrics os st =
     (let (machine_id, id_events, w') = getMachineId (st_world st);
          (cpu, prev') = calculateCpuPercent (st_previousCpuTicks st) (os_cpus os);
          st' = \<lparr> st_world = w', st_previousCpuTicks = prev' \<rparr>
      in case cpu of
           Inl e \<Rightarrow> (Inl e, id_events, st')
         | Inr cpu_percent \<Rightarrow>
             (let totalMem = os_totalmem os;
                  freeMem = os_freemem os;
                  usedMem = totalMem - freeMem;
                  (disk, disk_events) = getDiskUsage
              in (Inr \<lparr> snap_timestamp = strip_millis (date_iso os),
                        snap_hostname = os_hostname os,
                        snap_machine_id = machine_id,
                        snap_platform =
                          \<lparr> plat_system = os_type os, plat_release = os_release os,
                            plat_version = os_version os \<rparr>,
                        snap_cpu_percent = cpu_percent,
                        snap_cpu_count_logical = length (os_cpus os),
                        snap_cpu_count_physical = length (os_cpus os),
                        snap_memory =
                          \<lparr> mem_total = totalMem, mem_available = freeMem,
                            mem_percent = memPercent usedMem totalMem \<rparr>,
                        snap_disk = disk,
                        snap_loadavg = os_loadavg os,
                        snap_uptime_seconds = os_uptime os,
                        snap_ipv4 = scan_interfaces (os_networkInterfaces os) None \<rparr>,
                  id_events @ disk_events, st')))"

text \<open>An example machine, the agent's state at its first tick, and the snapshot then.\<close>

definition example_os :: os_env where
  "example_os =
     \<lparr> date_iso = ''2024-05-17T09:30:15.482Z'',
       os_hostname = ''web-01'',
       os_type = ''Linux'', os_release = ''6.1.0-18-amd64'', os_version = ''#1 SMP Debian'',
       os_cpus = sample_before,
       os_totalmem = 8000000000, os_freemem = 6000000000,
       os_loadavg = (1 / 4, 1 / 2, 3 / 4),
       os_uptime = 86400,
       os_networkInterfaces =
         [(''lo'', [\<lparr> addr_family = ''IPv4'', addr_internal = True, addr_address = ''127.0.0.1'' \<rparr>]),
          (''eth0'', [\<lparr> addr_family = ''IPv6'', addr_internal = False, addr_address = ''fe80::1'' \<rparr>,
                     \<lparr> addr_family = ''IPv4'', addr_internal = False, addr_address = ''192.0.2.10'' \<rparr>])] \<rparr>"

definition example_state :: agent_state where
  "example_state = \<lparr> st_world = world_with_machine_id, st_previousCpuTicks = None \<rparr>"

definition example_snapshot :: snapshot where
  "example_snapshot =
     \<lparr> snap_timestamp = ''2024-05-17T09:30:15Z'',
       snap_hostname = ''web-01'',
       snap_machine_id = ''4c4c4544004a3510804ab7c04f563432'',
       snap_platform =
         \<lparr> plat_system = ''Linux'', plat_release = ''6.1.0-18-amd64'',
           plat_version = ''#1 SMP Debian'' \<rparr>,
       snap_cpu_percent = 0,
       snap_cpu_count_logical = 2,
       snap_cpu_count_physical = 2,
       snap_memory =
         \<lparr> mem_total = 8000000000, mem_available = 6000000000, mem_percent = Some 25 \<rparr>,
       snap_disk =
         \<lparr> disk_total = 100000000000, disk_used = 40000000000, disk_free = 60000000000,
           disk_percent = 40 \<rparr>,
       snap_loadavg = (1 / 4, 1 / 2, 3 / 4),
       snap_uptime_seconds = 86400,
       snap_ipv4 = Some ''192.0.2.10'' \<rparr>"

subsection \<open>The agent loop: \<^verbatim>\<open>main\<close>\<close>

text \<open>
  One cycle, the body of both \<^verbatim>\<open>try\<close> blocks of \<^verbatim>\<open>main\<close>: sample, then deliver;
  an error thrown on the way is caught and logged.
\<close>

definition cycle ::
  "snapshot node_env \<Rightarrow> os_env \<Rightarrow> config \<Rightarrow> agent_state \<Rightarrow> event list \<times> agent_state" where
  "cycle env os cfg st =
     (case collectMetrics os st of
        (Inl e, events, st') \<Rightarrow> (events @ [Log (LogCycleError (message e))], st')
      | (Inr payload, events, st') \<Rightarrow> (events @ snd (sendPayload env cfg payload), st'))"

text \<open>
  The runtime's clock, in milliseconds. An awaited request of attempt \<open>k\<close> settles
  after \<open>latency k\<close>; an awaited \<^verbatim>\<open>setTimeout(resolve, ms)\<close> settles after the delay
  Node uses for \<open>ms\<close>, which replaces a delay below 1 or above \<open>2^31 - 1\<close> by 1; a log
  line takes no time. \<open>elapsed\<close> is the time from the start of an asynchronous call
  that performs the given events, one after the other, until it settles.
\<close>

definition timer_delay :: "real \<Rightarrow> real" where
  "timer_delay ms = (if 1 \<le> ms \<and> ms \<le> 2147483647 then ms else 1)"

fun event_ms :: "(nat \<Rightarrow> real) \<Rightarrow> event \<Rightarrow> real" where
  "event_ms latency (Request attempt options postData) = latency attempt"
| "event_ms latency (SetTimeout ms) = timer_delay ms"
| "event_ms latency (Log l) = 0"

definition elapsed :: "(nat \<Rightarrow> real) \<Rightarrow> event list \<Rightarrow> real" where
  "elapsed latency events = sum_list (map (event_ms latency) events)"

text \<open>
  What the outside holds for the cycles of one run of the agent: for cycle \<open>k\<close>, the
  network and random generator it meets, the readings of the operating system, and
  the latency of each of its requests.
\<close>

record runtime =
  env_at :: "nat \<Rightarrow> snapshot node_env"
  os_at :: "nat \<Rightarrow> os_env"
  latency_at :: "nat \<Rightarrow> nat \<Rightarrow> real"

text \<open>
  What an observer of the agent sees: cycle \<open>k\<close> starts (its callback is called) at a
  time, and settles (its \<^verbatim>\<open>await sendPayload\<close> returns) at a time.
\<close>

datatype tick = CycleStarted nat real | CycleSettled nat real

text \<open>
  The event loop after \<^verbatim>\<open>setInterval(callback, period)\<close>: the time of the next
  call of the callback, the number of the cycle it starts, the agent's state, and the
  cycles that have started and not yet settled with the times at which they will, the
  earliest first.
\<close>

record loop_state =
  next_fire :: real
  next_cycle :: nat
  agent :: agent_state
  in_flight :: "(nat \<times> real) list"

text \<open>
  \<open>n\<close> calls of the interval callback. When the timer fires, the cycles that were
  due by then have settled. The callback is \<^verbatim>\<open>async\<close>: it samples at once, starts the
  delivery and returns its promise at the first \<^verbatim>\<open>await\<close>; \<^verbatim>\<open>setInterval\<close> does
  not look at that promise and calls the callback again one period later.
\<close>

fun event_loop :: "runtime \<Rightarrow> config \<Rightarrow> real \<Rightarrow> nat \<Rightarrow> loop_state \<Rightarrow> tick list" where
  "event_loop rt cfg period 0 s = []"
| "event_loop rt cfg period (Suc n) s =
     (let now = next_fire s;
          k = next_cycle s;
          settled = takeWhile (\<lambda>c. snd c \<le> now) (in_flight s);
          running = dropWhile (\<lambda>c. snd c \<le> now) (in_flight s);
          (events, st') = cycle (env_at rt k) (os_at rt k) cfg (agent s);
          settles = now + elapsed (latency_at rt k) events
      in map (\<lambda>c. CycleSettled (fst c) (snd c)) settled @ [CycleStarted k now] @
         event_loop rt cfg period n
           \<lparr> next_fire = now + period, next_cycle = Suc k, agent = st',
             in_flight = insort_key snd (k, settles) running \<rparr>)"

text \<open>
  \<^verbatim>\<open>main\<close> with the configuration already loaded, observed from its start until
  the interval callback has been called \<open>n\<close> times: the first cycle runs at once and
  is awaited, then the interval timer is registered.
\<close>

definition main :: "runtime \<Rightarrow> config \<Rightarrow> agent_state \<Rightarrow> nat \<Rightarrow> tick list" where
  "main rt cfg st n =
     (let interval = interval_seconds cfg;
          (events, st') = cycle (env_at rt 0) (os_at rt 0) cfg st;
          settles = elapsed (latency_at rt 0) events;
          period = timer_delay (real_of_int (interval * 1000))
      in [CycleStarted 0 0, CycleSettled 0 settles] @
         event_loop rt cfg period n
           \<lparr> next_fire = settles + period, next_cycle = 1, agent = st', in_flight = [] \<rparr>)"





section \<open>Properties of the delivery client\<close>

lemma attempt_once_transient:
  "transient (net k) \<Longrightarrow>
   \<exists>l. attempt_once cfg options postData net k = Failed [Request k options postData, Log l]"
  by (auto simp: transient_def attempt_once_def split: attempt_result.splits)

lemma attempt_loop_retry:
  assumes "int a \<le> max_retries cfg" and "transient (net a)"
  shows "\<exists>l. attempt_loop cfg options postData net rnd a =
           prepend ([Request a options postData, Log l] @ backoff cfg rnd a)
             (attempt_loop cfg options postData net rnd (Suc a))"
proof -
  from attempt_once_transient [of net a, OF assms(2)] obtain l where
    "attempt_once cfg options postData net a = Failed [Request a options postData, Log l]"
    by blast
  with assms(1) show ?thesis
    by (subst attempt_loop.simps) auto
qed

lemma network_and_sleeps_backoff:
  "network_and_sleeps (backoff cfg rnd a) =
     (if int a < max_retries cfg then [SetTimeout (sleepTime cfg rnd a * 1000)] else [])"
  by (simp add: network_and_sleeps_def backoff_def)

lemma network_and_sleeps_append:
  "network_and_sleeps (xs @ ys) = network_and_sleeps xs @ network_and_sleeps ys"
  by (simp add: network_and_sleeps_def)

lemma network_and_sleeps_Nil: "network_and_sleeps [] = []"
  by (simp add: network_and_sleeps_def)

lemma network_and_sleeps_Cons:
  "network_and_sleeps (e # es) = (if is_log e then network_and_sleeps es else e # network_and_sleeps es)"
  by (simp add: network_and_sleeps_def)

lemma transient_run:
  assumes "\<forall>k. a \<le> k \<and> int k \<le> max_retries cfg \<longrightarrow> transient (net k)" and "0 < a"
  shows "fst (attempt_loop cfg options postData net rnd a) = False \<and>
         last (snd (attempt_loop cfg options postData net rnd a)) = Log LogAllFailed \<and>
         snd (attempt_loop cfg options postData net rnd a) \<noteq> [] \<and>
         network_and_sleeps (snd (attempt_loop cfg options postData net rnd a)) =
           concat (map (round_events cfg options postData rnd) [a..<Suc (nat (max_retries cfg))])"
  using assms
proof (induction cfg options postData net rnd a rule: attempt_loop.induct)
  case (1 cfg options postData net rnd attempt)
  show ?case
  proof (cases "int attempt \<le> max_retries cfg")
    case False
    with 1(3) have "Suc (nat (max_retries cfg)) \<le> attempt" by linarith
    then have "[attempt..<Suc (nat (max_retries cfg))] = []" by simp
    with False show ?thesis
      by (simp add: attempt_loop.simps network_and_sleeps_def)
  next
    case True
    with 1(2) have tr: "transient (net attempt)" by simp
    from attempt_once_transient [of net attempt, OF tr] obtain l where
      once: "attempt_once cfg options postData net attempt = Failed [Request attempt options postData, Log l]"
      by blast
    have step: "attempt_loop cfg options postData net rnd attempt =
           prepend ([Request attempt options postData, Log l] @ backoff cfg rnd attempt)
             (attempt_loop cfg options postData net rnd (Suc attempt))"
      using True once by (subst attempt_loop.simps) simp
    have ih: "fst (attempt_loop cfg options postData net rnd (Suc attempt)) = False \<and>
         last (snd (attempt_loop cfg options postData net rnd (Suc attempt))) = Log LogAllFailed \<and>
         snd (attempt_loop cfg options postData net rnd (Suc attempt)) \<noteq> [] \<and>
         network_and_sleeps (snd (attempt_loop cfg options postData net rnd (Suc attempt))) =
           concat (map (round_events cfg options postData rnd) [Suc attempt..<Suc (nat (max_retries cfg))])"
      using 1(1) [OF True once] 1(2) by simp
    have upt: "[attempt..<Suc (nat (max_retries cfg))] = attempt # [Suc attempt..<Suc (nat (max_retries cfg))]"
      using True by (intro upt_conv_Cons) linarith
    obtain r rest where rr: "attempt_loop cfg options postData net rnd (Suc attempt) = (r, rest)"
      by (cases "attempt_loop cfg options postData net rnd (Suc attempt)")
    have two: "network_and_sleeps [Request attempt options postData, Log l] =
                 [Request attempt options postData]"
      by (simp add: network_and_sleeps_def)
    show ?thesis
      using ih unfolding step rr upt
      by (simp add: network_and_sleeps_append network_and_sleeps_backoff
            round_events_def [of cfg options postData rnd attempt]
            network_and_sleeps_Cons del: upt_Suc)
  qed
qed

lemma sendPayload_configured:
  "endpoint cfg \<noteq> ''NULL'' \<Longrightarrow>
   sendPayload env cfg p =
     attempt_loop cfg (delivery_options env cfg p) (json_stringify env p)
       (https_request env (delivery_options env cfg p) (json_stringify env p))
       (math_random env) 1"
  by (simp add: sendPayload_def delivery_options_def Let_def)

lemma requests_of_network_and_sleeps:
  "requests_of evs = filter is_request (network_and_sleeps evs)"
proof -
  have "\<And>e. is_request e \<Longrightarrow> \<not> is_log e"
    by (case_tac e) simp_all
  then show ?thesis
    unfolding requests_of_def network_and_sleeps_def filter_filter
    by (intro filter_cong) auto
qed

lemma count_round_requests:
  "length (filter is_request (concat (map (round_events cfg options postData rnd) ks))) = length ks"
  by (induction ks) (simp_all add: round_events_def)

lemma rounds_split:
  assumes "0 < max_retries cfg"
  shows "concat (map (round_events cfg options postData rnd) [1..<Suc (nat (max_retries cfg))]) =
         concat (map (\<lambda>k. [Request k options postData,
                             SetTimeout ((backoff_base cfg ^ k + rnd k * jitter cfg) * 1000)])
                   [1..<nat (max_retries cfg)])
           @ [Request (nat (max_retries cfg)) options postData]"
proof -
  have split: "[1..<Suc (nat (max_retries cfg))] = [1..<nat (max_retries cfg)] @ [nat (max_retries cfg)]"
    using assms by (intro upt_Suc_append) linarith
  have pt: "\<And>k. k \<in> set [1..<nat (max_retries cfg)] \<Longrightarrow>
        round_events cfg options postData rnd k =
          [Request k options postData,
           SetTimeout ((backoff_base cfg ^ k + rnd k * jitter cfg) * 1000)]"
    by (auto simp: round_events_def sleepTime_def)
  have inner: "map (round_events cfg options postData rnd) [1..<nat (max_retries cfg)] =
        map (\<lambda>k. [Request k options postData,
                   SetTimeout ((backoff_base cfg ^ k + rnd k * jitter cfg) * 1000)])
          [1..<nat (max_retries cfg)]"
    by (rule map_cong [OF refl]) (rule pt)
  have lst: "round_events cfg options postData rnd (nat (max_retries cfg)) =
        [Request (nat (max_retries cfg)) options postData]"
    using assms by (simp add: round_events_def)
  show ?thesis
    unfolding split map_append concat_append inner
    by (simp only: list.map concat.simps lst append_Nil2)
qed

lemma sleep_bounds:
  assumes "0 \<le> (j::real)" and "0 \<le> r" and "r < 1"
  shows "b \<le> b + r * j \<and> b + r * j \<le> b + j"
proof
  show "b \<le> b + r * j" using assms by simp
  have "r * j \<le> 1 * j" using assms by (intro mult_right_mono) simp_all
  then show "b + r * j \<le> b + j" by simp
qed

text \<open>
  Claim C1. Against an endpoint on which every attempt ends transiently (a status
  outside 2xx and 4xx such as 500, or a transport error), with \<open>max_retries > 0\<close>, a
  configured endpoint and a jitter that is not negative, \<^verbatim>\<open>sendPayload\<close> makes exactly
  \<open>max_retries\<close> requests; after the request of attempt \<open>k < max_retries\<close> and before
  the request of attempt \<open>k + 1\<close> it sets one timer of
  \<open>backoff_base^k + Math.random() * jitter\<close> seconds, which lies between
  \<open>backoff_base^k\<close> and \<open>backoff_base^k + jitter\<close>; there is no timer after the last
  request; and the call ends as \<open>Exhausted\<close>: it returns \<open>False\<close> and its last log
  line is \<open>LogAllFailed\<close>.
\<close>

theorem always_transient_exhausts:
  assumes "endpoint cfg \<noteq> ''NULL''"
    and "0 < max_retries cfg"
    and "0 \<le> jitter cfg"
    and "\<forall>k. 1 \<le> k \<and> int k \<le> max_retries cfg \<longrightarrow>
           transient (https_request env (delivery_options env cfg p) (json_stringify env p) k)"
    and "\<forall>k. 0 \<le> math_random env k \<and> math_random env k < 1"
  shows "fst (sendPayload env cfg p) = False \<and>
         last (snd (sendPayload env cfg p)) = Log LogAllFailed \<and>
         length (requests_of (snd (sendPayload env cfg p))) = nat (max_retries cfg) \<and>
         network_and_sleeps (snd (sendPayload env cfg p)) =
           concat (map (\<lambda>k. [Request k (delivery_options env cfg p) (json_stringify env p),
                               SetTimeout ((backoff_base cfg ^ k + math_random env k * jitter cfg) * 1000)])
                     [1..<nat (max_retries cfg)])
             @ [Request (nat (max_retries cfg)) (delivery_options env cfg p) (json_stringify env p)] \<and>
         (\<forall>k. backoff_base cfg ^ k \<le> backoff_base cfg ^ k + math_random env k * jitter cfg \<and>
              backoff_base cfg ^ k + math_random env k * jitter cfg \<le> backoff_base cfg ^ k + jitter cfg)"
proof -
  let ?opts = "delivery_options env cfg p" and ?pd = "json_stringify env p"
  let ?run = "attempt_loop cfg ?opts ?pd (https_request env ?opts ?pd) (math_random env) 1"
  have run: "sendPayload env cfg p = ?run"
    using assms(1) by (rule sendPayload_configured)
  have tr: "\<forall>k. 1 \<le> k \<and> int k \<le> max_retries cfg \<longrightarrow> transient (https_request env ?opts ?pd k)"
    using assms(4) .
  have main: "fst ?run = False \<and> last (snd ?run) = Log LogAllFailed \<and> snd ?run \<noteq> [] \<and>
      network_and_sleeps (snd ?run) =
        concat (map (round_events cfg ?opts ?pd (math_random env)) [1..<Suc (nat (max_retries cfg))])"
    using transient_run [of 1 cfg "https_request env ?opts ?pd" ?opts ?pd "math_random env"] tr
    by simp
  have count: "length (requests_of (snd ?run)) = nat (max_retries cfg)"
    using main by (simp add: requests_of_network_and_sleeps count_round_requests del: upt_Suc)
  have sched: "network_and_sleeps (snd ?run) =
      concat (map (\<lambda>k. [Request k ?opts ?pd,
                         SetTimeout ((backoff_base cfg ^ k + math_random env k * jitter cfg) * 1000)])
                [1..<nat (max_retries cfg)])
        @ [Request (nat (max_retries cfg)) ?opts ?pd]"
    using main rounds_split [OF assms(2), of ?opts ?pd "math_random env"]
    by (simp only:)
  have bounds: "\<forall>k. backoff_base cfg ^ k \<le> backoff_base cfg ^ k + math_random env k * jitter cfg \<and>
              backoff_base cfg ^ k + math_random env k * jitter cfg \<le> backoff_base cfg ^ k + jitter cfg"
    using sleep_bounds [OF assms(3)] assms(5) by blast
  show ?thesis
    unfolding run using main count sched bounds by blast
qed

lemma backoff_no_request: "Request k o' pd' \<notin> set (backoff cfg rnd a)"
  by (simp add: backoff_def)

lemma requests_of_backoff: "requests_of (backoff cfg rnd a) = []"
  by (simp add: backoff_def requests_of_def)

lemma requests_of_append: "requests_of (xs @ ys) = requests_of xs @ requests_of ys"
  by (simp add: requests_of_def)

lemma attempt_once_cases:
  "(\<exists>l. attempt_once cfg options postData net a = Failed [Request a options postData, Log l]) \<or>
   (\<exists>r l. attempt_once cfg options postData net a = Finished r [Request a options postData, Log l])"
  by (auto simp: attempt_once_def split: attempt_result.splits)

lemma attempt_once_client_error:
  "net a = Response sc body \<Longrightarrow> 400 \<le> sc \<Longrightarrow> sc < 500 \<Longrightarrow>
   attempt_once cfg options postData net a =
     Finished False [Request a options postData, Log (LogClientError sc body)]"
  by (simp add: attempt_once_def)

lemma attempt_loop_requests:
  "Request k o' pd' \<in> set (snd (attempt_loop cfg options postData net rnd a)) \<Longrightarrow>
   o' = options \<and> pd' = postData \<and> a \<le> k \<and> int k \<le> max_retries cfg"
proof (induction cfg options postData net rnd a rule: attempt_loop.induct)
  case (1 cfg options postData net rnd attempt)
  show ?case
  proof (cases "int attempt \<le> max_retries cfg")
    case False
    with 1(2) show ?thesis by (simp add: attempt_loop.simps)
  next
    case True
    from attempt_once_cases [of cfg options postData net attempt] show ?thesis
    proof (elim disjE exE)
      fix l assume once: "attempt_once cfg options postData net attempt = Failed [Request attempt options postData, Log l]"
      obtain r rest where rr: "attempt_loop cfg options postData net rnd (Suc attempt) = (r, rest)"
        by (cases "attempt_loop cfg options postData net rnd (Suc attempt)")
      have "attempt_loop cfg options postData net rnd attempt =
              (r, [Request attempt options postData, Log l] @ backoff cfg rnd attempt @ rest)"
        using True once rr by (subst attempt_loop.simps) simp
      with 1(2) have "Request k o' pd' = Request attempt options postData \<or> Request k o' pd' \<in> set rest"
        by (auto simp: backoff_no_request)
      then show ?thesis
      proof
        assume "Request k o' pd' = Request attempt options postData"
        with True show ?thesis by simp
      next
        assume "Request k o' pd' \<in> set rest"
        with 1(1) [OF True once] rr show ?thesis by simp
      qed
    next
      fix r l assume once: "attempt_once cfg options postData net attempt = Finished r [Request attempt options postData, Log l]"
      have "attempt_loop cfg options postData net rnd attempt = (r, [Request attempt options postData, Log l])"
        using True once by (subst attempt_loop.simps) simp
      with 1(2) True show ?thesis by simp
    qed
  qed
qed

lemma client_error_stops:
  assumes "Request k o' pd' \<in> set (snd (attempt_loop cfg options postData net rnd a))"
    and "net k = Response sc body" and "400 \<le> sc" and "sc < 500"
  shows "fst (attempt_loop cfg options postData net rnd a) = False \<and>
         (\<exists>pre. snd (attempt_loop cfg options postData net rnd a) =
                  pre @ [Request k options postData, Log (LogClientError sc body)]) \<and>
         length (requests_of (snd (attempt_loop cfg options postData net rnd a))) = Suc k - a"
  using assms
proof (induction cfg options postData net rnd a rule: attempt_loop.induct)
  case (1 cfg options postData net rnd attempt)
  note mem = 1(2)
  from attempt_loop_requests [OF mem] have le: "attempt \<le> k" "int k \<le> max_retries cfg"
    by simp_all
  then have True: "int attempt \<le> max_retries cfg" by linarith
  show ?case
  proof (cases "k = attempt")
    case True
    have once: "attempt_once cfg options postData net attempt =
        Finished False [Request attempt options postData, Log (LogClientError sc body)]"
      using 1(3,4,5) True by (simp add: attempt_once_client_error)
    have "attempt_loop cfg options postData net rnd attempt =
        (False, [Request attempt options postData, Log (LogClientError sc body)])"
      using \<open>int attempt \<le> max_retries cfg\<close> once by (subst attempt_loop.simps) simp
    with True show ?thesis by (simp add: requests_of_def)
  next
    case False
    with le have lt: "Suc attempt \<le> k" by simp
    from attempt_once_cases [of cfg options postData net attempt] show ?thesis
    proof (elim disjE exE)
      fix l assume once: "attempt_once cfg options postData net attempt = Failed [Request attempt options postData, Log l]"
      obtain r rest where rr: "attempt_loop cfg options postData net rnd (Suc attempt) = (r, rest)"
        by (cases "attempt_loop cfg options postData net rnd (Suc attempt)")
      have step: "attempt_loop cfg options postData net rnd attempt =
              (r, [Request attempt options postData, Log l] @ backoff cfg rnd attempt @ rest)"
        using \<open>int attempt \<le> max_retries cfg\<close> once rr by (subst attempt_loop.simps) simp
      with mem False have "Request k o' pd' \<in> set rest"
        by (auto simp: backoff_no_request)
      with rr have "Request k o' pd' \<in> set (snd (attempt_loop cfg options postData net rnd (Suc attempt)))"
        by simp
      from 1(1) [OF \<open>int attempt \<le> max_retries cfg\<close> once this 1(3,4,5)] rr
      obtain pre where ih: "r = False" "rest = pre @ [Request k options postData, Log (LogClientError sc body)]"
          "length (requests_of rest) = Suc k - Suc attempt"
        by auto
      have "length (requests_of ([Request attempt options postData, Log l] @ backoff cfg rnd attempt @ rest))
            = Suc (length (requests_of rest))"
        unfolding requests_of_append requests_of_backoff by (simp add: requests_of_def)
      with ih(3) lt have cnt: "length (requests_of ([Request attempt options postData, Log l] @ backoff cfg rnd attempt @ rest)) = Suc k - attempt"
        by simp
      have "[Request attempt options postData, Log l] @ backoff cfg rnd attempt @ rest =
            ([Request attempt options postData, Log l] @ backoff cfg rnd attempt @ pre) @
              [Request k options postData, Log (LogClientError sc body)]"
        using ih(2) by simp
      then have "\<exists>pre'. [Request attempt options postData, Log l] @ backoff cfg rnd attempt @ rest =
            pre' @ [Request k options postData, Log (LogClientError sc body)]"
        by blast
      with ih(1) cnt show ?thesis unfolding step by simp
    next
      fix r l assume once: "attempt_once cfg options postData net attempt = Finished r [Request attempt options postData, Log l]"
      have "attempt_loop cfg options postData net rnd attempt = (r, [Request attempt options postData, Log l])"
        using \<open>int attempt \<le> max_retries cfg\<close> once by (subst attempt_loop.simps) simp
      with mem False show ?thesis by simp
    qed
  qed
qed

lemma example_delivery_options:
  "delivery_options (example_env net) example_config () = example_options"
  by (simp add: delivery_options_def example_env_def example_config_def DEFAULT_CONFIG_def
      build_options_def example_url_def example_options_def)

lemma example_config_fields:
  "endpoint example_config \<noteq> ''NULL''" "max_retries example_config = 5"
  "jitter example_config = 3 / 10" "backoff_base example_config = 2"
  by (simp_all add: example_config_def DEFAULT_CONFIG_def)

text \<open>
  The run of C1 at the example endpoint answering 500 five times, with the default
  retry settings and \<^verbatim>\<open>Math.random()\<close> returning one half: timers of 2.15 s, 4.15 s,
  8.15 s and 16.15 s.
\<close>

theorem always_transient_exhausts_witness:
  "fst (sendPayload (example_env (\<lambda>k. Response 500 ''busy'')) example_config ()) = False \<and>
   last (snd (sendPayload (example_env (\<lambda>k. Response 500 ''busy'')) example_config ())) = Log LogAllFailed \<and>
   length (requests_of (snd (sendPayload (example_env (\<lambda>k. Response 500 ''busy'')) example_config ()))) = 5 \<and>
   network_and_sleeps (snd (sendPayload (example_env (\<lambda>k. Response 500 ''busy'')) example_config ())) =
     [Request 1 example_options ''{}'', SetTimeout 2150,
      Request 2 example_options ''{}'', SetTimeout 4150,
      Request 3 example_options ''{}'', SetTimeout 8150,
      Request 4 example_options ''{}'', SetTimeout 16150,
      Request 5 example_options ''{}'']"
proof -
  let ?env = "example_env (\<lambda>k. Response 500 ''busy'')"
  have h4: "\<forall>k. 1 \<le> k \<and> int k \<le> max_retries example_config \<longrightarrow>
      transient (https_request ?env (delivery_options ?env example_config ()) (json_stringify ?env ()) k)"
    by (simp add: example_env_def transient_def)
  have h5: "\<forall>k. 0 \<le> math_random ?env k \<and> math_random ?env k < 1"
    by (simp add: example_env_def)
  have upt: "[Suc 0..<5] = [Suc 0, 2, 3, 4]"
    by code_simp
  have js: "json_stringify ?env () = ''{}''" "\<And>k. math_random ?env k = 1 / 2"
    by (simp_all add: example_env_def)
  from always_transient_exhausts [of example_config ?env "()", OF _ _ _ h4 h5]
  show ?thesis
    by (simp add: example_config_fields example_delivery_options upt js)
qed

text \<open>
  Claim C2. With a configured endpoint: whenever a request of the run is answered with
  a status in [400,500), \<^verbatim>\<open>sendPayload\<close> ends as \<open>Rejected(status)\<close>: it returns
  \<open>False\<close>, that request and the log line \<open>LogClientError status body\<close> are the last
  two events (no timer and no request follow), and the request of attempt \<open>k\<close> is the
  \<open>k\<close>-th and last request of the run. In particular, with \<open>max_retries > 0\<close> and an
  endpoint that always answers 404, the run is exactly one request and that log line.
\<close>

theorem client_error_rejected_at_once:
  assumes "endpoint cfg \<noteq> ''NULL''"
  shows "(\<forall>k o' pd' sc body.
            Request k o' pd' \<in> set (snd (sendPayload env cfg p)) \<and>
            https_request env (delivery_options env cfg p) (json_stringify env p) k = Response sc body \<and>
            400 \<le> sc \<and> sc < 500 \<longrightarrow>
              fst (sendPayload env cfg p) = False \<and>
              (\<exists>pre. snd (sendPayload env cfg p) =
                 pre @ [Request k (delivery_options env cfg p) (json_stringify env p),
                        Log (LogClientError sc body)]) \<and>
              length (requests_of (snd (sendPayload env cfg p))) = k) \<and>
         (0 < max_retries cfg \<and>
          (\<forall>k. https_request env (delivery_options env cfg p) (json_stringify env p) k
                 = Response 404 body404) \<longrightarrow>
            sendPayload env cfg p =
              (False, [Request 1 (delivery_options env cfg p) (json_stringify env p),
                       Log (LogClientError 404 body404)]))"
proof (intro conjI allI impI)
  let ?opts = "delivery_options env cfg p" and ?pd = "json_stringify env p"
  let ?net = "https_request env ?opts ?pd"
  have run: "sendPayload env cfg p = attempt_loop cfg ?opts ?pd ?net (math_random env) 1"
    using assms by (rule sendPayload_configured)
  {
    fix k o' pd' sc body
    assume h: "Request k o' pd' \<in> set (snd (sendPayload env cfg p)) \<and>
            ?net k = Response sc body \<and> 400 \<le> sc \<and> sc < 500"
    then have mem: "Request k o' pd' \<in> set (snd (attempt_loop cfg ?opts ?pd ?net (math_random env) 1))"
      by (simp add: run)
    from client_error_stops [OF mem, of sc body] h
    have res: "fst (sendPayload env cfg p) = False \<and>
         (\<exists>pre. snd (sendPayload env cfg p) =
                  pre @ [Request k ?opts ?pd, Log (LogClientError sc body)]) \<and>
         length (requests_of (snd (sendPayload env cfg p))) = Suc k - 1"
      by (simp add: run)
    from res show "fst (sendPayload env cfg p) = False" by simp
    from res show "\<exists>pre. snd (sendPayload env cfg p) =
                  pre @ [Request k ?opts ?pd, Log (LogClientError sc body)]" by simp
    from res show "length (requests_of (snd (sendPayload env cfg p))) = k" by simp
  }
  assume h: "0 < max_retries cfg \<and> (\<forall>k. ?net k = Response 404 body404)"
  then have "attempt_once cfg ?opts ?pd ?net 1 =
      Finished False [Request 1 ?opts ?pd, Log (LogClientError 404 body404)]"
    by (simp add: attempt_once_client_error)
  with h show "sendPayload env cfg p =
      (False, [Request 1 ?opts ?pd, Log (LogClientError 404 body404)])"
    unfolding run by (subst attempt_loop.simps) simp
qed

text \<open>The run of C2 at the example endpoint answering 404: one request.\<close>

theorem client_error_rejected_at_once_witness:
  "sendPayload (example_env (\<lambda>k. Response 404 ''no such route'')) example_config () =
     (False, [Request 1 example_options ''{}'', Log (LogClientError 404 ''no such route'')]) \<and>
   length (requests_of
     (snd (sendPayload (example_env (\<lambda>k. Response 404 ''no such route'')) example_config ()))) = 1"
proof -
  let ?env = "example_env (\<lambda>k. Response 404 ''no such route'')"
  have js: "json_stringify ?env () = ''{}''"
       "\<And>options postData k. https_request ?env options postData k = Response 404 ''no such route''"
    by (simp_all add: example_env_def)
  note inst = client_error_rejected_at_once [of example_config ?env "()" "''no such route''",
      OF example_config_fields(1)]
  from inst have run: "sendPayload ?env example_config () =
     (False, [Request 1 example_options ''{}'', Log (LogClientError 404 ''no such route'')])"
    by (simp add: example_config_fields example_delivery_options js)
  then show ?thesis
    by (simp add: requests_of_def)
qed

text \<open>
  Claim C3. When the configured endpoint is the sentinel \<^verbatim>\<open>"NULL"\<close>, \<^verbatim>\<open>sendPayload\<close>
  returns \<open>False\<close> at once; its only event is the log line \<open>LogNotConfigured\<close>, which is
  how the code marks \<open>Rejected("unconfigured")\<close>, and it issues no request.
\<close>

theorem unconfigured_endpoint_no_request:
  "endpoint cfg = ''NULL'' \<Longrightarrow>
   sendPayload env cfg p = (False, [Log LogNotConfigured]) \<and>
   requests_of (snd (sendPayload env cfg p)) = []"
  by (simp add: sendPayload_def requests_of_def)

text \<open>The run of C3 on the default configuration, whose endpoint is the sentinel.\<close>

theorem unconfigured_endpoint_no_request_witness:
  "sendPayload (example_env (\<lambda>k. Response 200 ''ok'')) DEFAULT_CONFIG () =
     (False, [Log LogNotConfigured]) \<and>
   requests_of (snd (sendPayload (example_env (\<lambda>k. Response 200 ''ok'')) DEFAULT_CONFIG ())) = []"
  using unconfigured_endpoint_no_request
          [of DEFAULT_CONFIG "example_env (\<lambda>k. Response 200 ''ok'')" "()"]
  by (simp add: DEFAULT_CONFIG_def requests_of_def)

text \<open>
  Claim C10. Every request of a run carries the same options: port 443, the hostname
  that \<^verbatim>\<open>url.parse\<close> found in the endpoint and its pathname as the request path. The
  options are built from the hostname and the pathname alone, so two endpoint URLs that
  differ in the port, the query string or any other part give the same options.
\<close>

theorem requests_use_port_443_host_and_pathname:
  "(\<forall>e \<in> set (requests_of (snd (sendPayload env cfg p))).
      \<exists>k. e = Request k (delivery_options env cfg p) (json_stringify env p)) \<and>
   opt_port (delivery_options env cfg p) = 443 \<and>
   opt_hostname (delivery_options env cfg p) = url_hostname (url_parse env (endpoint cfg)) \<and>
   opt_path (delivery_options env cfg p) = url_pathname (url_parse env (endpoint cfg)) \<and>
   (url_hostname u = url_hostname u' \<and> url_pathname u = url_pathname u' \<longrightarrow>
      build_options cfg u postData = build_options cfg u' postData)"
proof (intro conjI ballI impI)
  fix e assume e: "e \<in> set (requests_of (snd (sendPayload env cfg p)))"
  then have "is_request e"
    by (simp add: requests_of_def)
  then obtain k o' pd' where req: "e = Request k o' pd'"
    by (cases e) simp_all
  show "\<exists>k. e = Request k (delivery_options env cfg p) (json_stringify env p)"
  proof (cases "endpoint cfg = ''NULL''")
    case True
    with e show ?thesis by (simp add: sendPayload_def requests_of_def)
  next
    case False
    from e req have "Request k o' pd' \<in> set (snd (sendPayload env cfg p))"
      by (simp add: requests_of_def)
    then have "o' = delivery_options env cfg p \<and> pd' = json_stringify env p"
      unfolding sendPayload_configured [OF False] by (blast dest: attempt_loop_requests)
    with req show ?thesis by blast
  qed
qed (simp_all add: delivery_options_def build_options_def)

text \<open>
  The run of C10 at the example endpoint, which names port 8443 and a query string: the
  one request goes to port 443 with the path \<^verbatim>\<open>/ingest\<close>, as for the same URL without
  port and query.
\<close>

theorem requests_use_port_443_host_and_pathname_witness:
  "requests_of (snd (sendPayload (example_env (\<lambda>k. Response 200 ''ok'')) example_config ())) =
     [Request 1 example_options ''{}''] \<and>
   opt_port example_options = 443 \<and>
   opt_hostname example_options = Some ''collector.example.com'' \<and>
   opt_path example_options = Some ''/ingest'' \<and>
   build_options example_config example_url ''{}'' =
     build_options example_config
       (example_url \<lparr> url_host := Some ''collector.example.com'', url_port := None,
                      url_search := None, url_query := None, url_path := Some ''/ingest'',
                      url_href := ''https://collector.example.com/ingest'' \<rparr>) ''{}''"
proof -
  let ?env = "example_env (\<lambda>k. Response 200 ''ok'')"
  let ?u' = "example_url \<lparr> url_host := Some ''collector.example.com'', url_port := None,
                      url_search := None, url_query := None, url_path := Some ''/ingest'',
                      url_href := ''https://collector.example.com/ingest'' \<rparr>"
  note inst = requests_use_port_443_host_and_pathname
      [of ?env example_config "()" example_url ?u' "''{}''"]
  have run: "sendPayload ?env example_config () =
      (True, [Request 1 example_options ''{}'', Log (LogAccepted 200)])"
    unfolding sendPayload_configured [OF example_config_fields(1)] example_delivery_options
    by (subst attempt_loop.simps)
      (simp add: example_config_fields attempt_once_def example_env_def)
  have "requests_of (snd (sendPayload ?env example_config ())) = [Request 1 example_options ''{}'']"
    by (simp add: run requests_of_def)
  with inst show ?thesis
    by (simp add: example_delivery_options example_options_def build_options_def example_url_def)
qed

section \<open>Properties of double rounding\<close>

lemma bit_length_bounds:
  "0 < n \<Longrightarrow> 2 ^ (bit_length n - 1) \<le> n \<and> n < 2 ^ bit_length n"
proof (induction n rule: bit_length.induct)
  case (1 n)
  show ?case
  proof (cases "n div 2 = 0")
    case True
    with 1(2) have "n = 1" by (simp add: div_eq_0_iff) 
    then show ?thesis by (simp add: bit_length.simps)
  next
    case False
    then have pos: "0 < n div 2" by simp
    from 1(2) have nz: "n \<noteq> 0" by simp
    from 1(1) [OF nz pos] have ih: "2 ^ (bit_length (n div 2) - 1) \<le> n div 2" "n div 2 < 2 ^ bit_length (n div 2)"
      by simp_all
    have bl: "bit_length n = Suc (bit_length (n div 2))"
      using nz by (subst bit_length.simps) simp
    have bpos: "0 < bit_length (n div 2)"
      using pos by (subst bit_length.simps) simp
    then obtain m where m: "bit_length (n div 2) = Suc m"
      by (cases "bit_length (n div 2)") simp_all
    from ih(1) have "2 * 2 ^ m \<le> 2 * (n div 2)" by (simp add: m)
    also have "\<dots> \<le> n" by simp
    finally have lo: "2 ^ (bit_length n - 1) \<le> n" by (simp add: bl m)
    from ih(2) have "Suc (n div 2) \<le> 2 ^ bit_length (n div 2)" by simp
    then have "2 * Suc (n div 2) \<le> 2 * 2 ^ bit_length (n div 2)" by simp
    moreover have "n < 2 * Suc (n div 2)" by simp
    ultimately have hi: "n < 2 ^ bit_length n" by (simp add: bl)
    from lo hi show ?thesis by blast
  qed
qed

lemma rne_near: "\<bar>of_int (rne y) - y\<bar> \<le> 1 / 2"
  unfolding rne_def by (auto simp: abs_le_iff)

lemma rne_le_int: "y \<le> of_int c \<Longrightarrow> rne y \<le> c"
proof -
  assume le: "y \<le> of_int c"
  show ?thesis
  proof (cases "y = of_int c")
    case True
    then show ?thesis by (simp add: rne_def)
  next
    case False
    with le have "y < of_int c" by simp
    then have "\<lfloor>y\<rfloor> < c" by (simp add: floor_less_iff)
    then have "\<lfloor>y\<rfloor> + 1 \<le> c" by simp
    then show ?thesis unfolding rne_def by (auto split: if_splits)
  qed
qed

lemma rne_ge_int: "of_int c \<le> y \<Longrightarrow> c \<le> rne y"
proof -
  assume "of_int c \<le> y"
  then have "c \<le> \<lfloor>y\<rfloor>" by (simp add: le_floor_iff)
  then show ?thesis unfolding rne_def by (auto split: if_splits)
qed

lemma real_pow2_le: "2 ^ k \<le> (n::nat) \<Longrightarrow> (2::real) ^ k \<le> real n"
  by (metis of_nat_le_iff of_nat_numeral of_nat_power)

lemma real_less_pow2: "(n::nat) < 2 ^ k \<Longrightarrow> real n + 1 \<le> (2::real) ^ k"
proof -
  assume "n < 2 ^ k"
  then have "Suc n \<le> 2 ^ k" by simp
  then have "real (Suc n) \<le> real (2 ^ k)" by (rule of_nat_mono)
  then show ?thesis by simp
qed

lemma binade_bounds:
  assumes "x \<noteq> 0"
  shows "2 powi binade x \<le> \<bar>x\<bar> \<and> \<bar>x\<bar> < 2 powi (binade x + 1)"
proof (cases "1 \<le> \<bar>x\<bar>")
  case True
  define n where "n = nat \<lfloor>\<bar>x\<bar>\<rfloor>"
  from True have n1: "0 < n" "real n \<le> \<bar>x\<bar>" "\<bar>x\<bar> < real n + 1"
    unfolding n_def by (simp_all add: le_nat_floor)
  from bit_length_bounds [OF n1(1)] have b: "2 ^ (bit_length n - 1) \<le> n" "n < 2 ^ bit_length n"
    by simp_all
  have bpos: "0 < bit_length n"
    using n1(1) by (subst bit_length.simps) simp
  have e: "binade x = int (bit_length n - 1)"
    using True bpos by (simp add: binade_def n_def)
  have e1: "binade x + 1 = int (bit_length n)"
    using e bpos by simp
  have pw1: "2 powi binade x = (2::real) ^ (bit_length n - 1)"
    by (simp only: e power_int_of_nat)
  have "int (bit_length n - 1) + 1 = int (bit_length n)"
    using bpos by simp
  then have pw2: "2 powi (binade x + 1) = (2::real) ^ bit_length n"
    by (simp only: e power_int_of_nat)
  note pw = pw1 pw2
  from real_pow2_le [OF b(1)] n1(2) have lo: "2 powi binade x \<le> \<bar>x\<bar>"
    unfolding pw by linarith
  from real_less_pow2 [OF b(2)] n1(3) have hi: "\<bar>x\<bar> < 2 powi (binade x + 1)"
    unfolding pw by linarith
  from lo hi show ?thesis by blast
next
  case False
  define a where "a = \<bar>x\<bar>"
  from assms False have a: "0 < a" "a < 1" by (simp_all add: a_def)
  define y where "y = 1 / a"
  from a have y1: "1 < y" by (simp add: y_def)
  define c where "c = \<lceil>y\<rceil>"
  have c: "real_of_int c - 1 < y" "y \<le> real_of_int c" unfolding c_def by linarith+
  from y1 c(2) have c2: "2 \<le> c" by linarith
  define n where "n = nat (c - 1)"
  from c2 have n: "0 < n" "int n = c - 1" by (simp_all add: n_def)
  define j where "j = bit_length n"
  from bit_length_bounds [OF n(1)] have b: "2 ^ (j - 1) \<le> n" "n < 2 ^ j"
    by (simp_all add: j_def)
  have jpos: "0 < j" unfolding j_def using n(1) by (subst bit_length.simps) simp
  have e: "binade x = - int j"
    using False by (simp add: binade_def j_def n_def c_def y_def a_def)
  have nc: "real n = real_of_int c - 1" using n(2) by linarith
  from real_pow2_le [OF b(1)] nc c(1) have ylo: "2 ^ (j - 1) < y" by linarith
  from real_less_pow2 [OF b(2)] nc c(2) have yhi: "y \<le> 2 ^ j" by linarith
  have lo: "2 powi binade x \<le> a"
  proof -
    from yhi have "1 / a \<le> 2 ^ j" by (simp add: y_def)
    with a(1) have "1 \<le> a * 2 ^ j" by (simp add: field_simps)
    then have "1 / 2 ^ j \<le> a" by (simp add: field_simps)
    then show ?thesis unfolding e by (simp add: power_int_minus field_simps)
  qed
  have hi: "a < 2 powi (binade x + 1)"
  proof -
    from ylo have "2 ^ (j - 1) < 1 / a" by (simp add: y_def)
    with a(1) have "a * 2 ^ (j - 1) < 1" by (simp add: field_simps)
    then have "a < 1 / 2 ^ (j - 1)" by (simp add: field_simps)
    moreover have "binade x + 1 = - int (j - 1)" using e jpos by simp
    ultimately show ?thesis by (simp add: power_int_minus field_simps)
  qed
  from lo hi show ?thesis unfolding a_def by blast
qed

lemma fl_nonneg: "0 \<le> x \<Longrightarrow> 0 \<le> fl x"
proof (cases "x = 0")
  case True
  then show ?thesis by (simp add: fl_def)
next
  case False
  assume "0 \<le> x"
  then have "of_int 0 \<le> x / 2 powi (binade x - 52)" by simp
  then have "0 \<le> rne (x / 2 powi (binade x - 52))" by (rule rne_ge_int)
  with False show ?thesis by (simp add: fl_def)
qed

lemma fl_nonpos: "x \<le> 0 \<Longrightarrow> fl x \<le> 0"
proof (cases "x = 0")
  case True
  then show ?thesis by (simp add: fl_def)
next
  case False
  assume "x \<le> 0"
  then have "x / 2 powi (binade x - 52) \<le> of_int 0" by (simp add: divide_nonpos_pos)
  then have "rne (x / 2 powi (binade x - 52)) \<le> 0" by (rule rne_le_int)
  with False show ?thesis by (simp add: fl_def mult_le_0_iff)
qed

lemma fl_le_int:
  assumes "x \<le> of_int c" and "0 \<le> c" and "c < 2 ^ 53"
  shows "fl x \<le> of_int c"
proof (cases "0 < x")
  case False
  then have "fl x \<le> 0" by (intro fl_nonpos) simp
  with assms(2) show ?thesis by simp
next
  case True
  then have nz: "x \<noteq> 0" by simp
  define b where "b = binade x"
  from binade_bounds [OF nz] True have lo: "2 powi b \<le> x" by (simp add: b_def)
  have "b < 53"
  proof (rule ccontr)
    assume "\<not> b < 53"
    then have "(53::int) \<le> b" by simp
    then have "(2::real) powi 53 \<le> 2 powi b" by (rule power_int_increasing) simp
    with lo assms(1) have "(2::real) ^ 53 \<le> of_int c" by simp
    moreover from assms(3) have "real_of_int c < 2 ^ 53"
      by (metis of_int_less_iff of_int_numeral of_int_power)
    ultimately show False by simp
  qed
  define j where "j = nat (52 - b)"
  have u: "2 powi (b - 52) = 1 / (2::real) ^ j"
  proof -
    have "b - 52 = - int j" using \<open>b < 53\<close> by (simp add: j_def)
    then have "(2::real) powi (b - 52) = 2 powi (- int j)" by (simp only:)
    also have "\<dots> = 1 / 2 ^ j" by (simp only: power_int_minus_divide power_int_of_nat)
    finally show ?thesis .
  qed
  have "x / 2 powi (b - 52) = x * 2 ^ j" by (simp add: u)
  also have "\<dots> \<le> of_int c * 2 ^ j" using assms(1) by simp
  also have "\<dots> = of_int (c * 2 ^ j)" by simp
  finally have "rne (x / 2 powi (b - 52)) \<le> c * 2 ^ j" by (rule rne_le_int)
  then have "real_of_int (rne (x / 2 powi (b - 52))) \<le> real_of_int (c * 2 ^ j)"
    by (simp only: of_int_le_iff)
  then have "real_of_int (rne (x / 2 powi (b - 52))) * (1 / 2 ^ j) \<le> of_int c"
    by (simp add: field_simps)
  with nz show ?thesis by (simp add: fl_def b_def [symmetric] u)
qed

lemma fl_error: "\<bar>fl x - x\<bar> \<le> \<bar>x\<bar> / 2 ^ 53"
proof (cases "x = 0")
  case True
  then show ?thesis by (simp add: fl_def)
next
  case False
  define b where "b = binade x"
  define u where "u = (2::real) powi (b - 52)"
  have upos: "0 < u" by (simp add: u_def)
  from binade_bounds [OF False] have lo: "2 powi b \<le> \<bar>x\<bar>" by (simp add: b_def)
  have ub: "u * 2 ^ 52 = 2 powi b"
  proof -
    have "(2::real) powi b = 2 powi ((b - 52) + 52)" by simp
    also have "\<dots> = 2 powi (b - 52) * 2 powi 52" by (rule power_int_add) simp
    finally show ?thesis by (simp add: u_def)
  qed
  have "\<bar>fl x - x\<bar> = \<bar>of_int (rne (x / u)) - x / u\<bar> * u"
  proof -
    have "fl x - x = (of_int (rne (x / u)) - x / u) * u"
      using False upos by (simp add: fl_def b_def u_def field_simps)
    then show ?thesis using upos by (simp add: abs_mult)
  qed
  also have "\<dots> \<le> 1 / 2 * u"
    using rne_near [of "x / u"] upos by (intro mult_right_mono) simp_all
  also have "\<dots> = 2 powi b / 2 ^ 53" using ub by simp
  also have "\<dots> \<le> \<bar>x\<bar> / 2 ^ 53" using lo by (simp add: divide_right_mono)
  finally show ?thesis .
qed

section \<open>Properties of the CPU estimator\<close>

lemma difference_loop_sums:
  "length cur \<le> length prev \<Longrightarrow> i \<le> length cur \<Longrightarrow>
   difference_loop cur prev i (a, b) =
     Inr (a + (\<Sum>j = i..<length cur. tick_idle (cur ! j) - tick_idle (prev ! j)),
          b + (\<Sum>j = i..<length cur. tick_total (cur ! j) - tick_total (prev ! j)))"
proof (induction cur prev i "(a, b)" arbitrary: a b rule: difference_loop.induct)
  case (1 cur prev i idleDifference totalDifference)
  show ?case
  proof (cases "i < length cur")
    case False
    with 1(3) have "i = length cur" by simp
    then show ?thesis by (simp add: difference_loop.simps)
  next
    case True
    with 1(2) have inprev: "i < length prev" by simp
    from True have le: "Suc i \<le> length cur" by simp
    show ?thesis
      using True inprev 1(1) [OF True inprev 1(2) le]
      by (subst difference_loop.simps) (simp add: sum.atLeast_Suc_lessThan)
  qed
qed

lemma difference_loop_deltas:
  "length cur \<le> length prev \<Longrightarrow>
   difference_loop cur prev 0 (0, 0) = Inr (idle_delta prev cur, total_delta prev cur)"
  by (simp add: difference_loop_sums idle_delta_def total_delta_def)


lemma state_after_sample:
  "calculateCpuPercent st cpus = (Inr u, st') \<Longrightarrow> st' = Some (currentCpuTicks cpus)"
  by (auto simp: calculateCpuPercent_def split: option.splits sum.splits if_splits)

lemma toFixed_1_nonneg:
  assumes "0 \<le> x" and "x < 10 ^ 21"
  shows "toFixed 1 x = of_int \<lfloor>x * 10 + 1 / 2\<rfloor> / 10"
proof (cases "x = 0")
  case True
  then show ?thesis by (simp add: toFixed_def)
next
  case False
  with assms have "0 < x" by simp
  with assms show ?thesis by (simp add: toFixed_def)
qed

lemma toFixed_1_range:
  assumes "0 \<le> x" and "x \<le> 100"
  shows "0 \<le> toFixed 1 x \<and> toFixed 1 x \<le> 100"
proof -
  have eq: "toFixed 1 x = of_int \<lfloor>x * 10 + 1 / 2\<rfloor> / 10"
    using assms by (intro toFixed_1_nonneg) simp_all
  have "0 \<le> \<lfloor>x * 10 + 1 / 2\<rfloor>" using assms by simp
  moreover have "\<lfloor>x * 10 + 1 / 2\<rfloor> \<le> 1000"
  proof -
    have "x * 10 + 1 / 2 < 1001" using assms by simp
    then have "\<lfloor>x * 10 + 1 / 2\<rfloor> < 1001" by (simp add: floor_less_iff)
    then show ?thesis by simp
  qed
  ultimately show ?thesis unfolding eq by simp
qed

lemma toFixed_1_nearest:
  assumes "0 \<le> x" and "x < 10 ^ 21"
  shows "\<bar>toFixed 1 x - x\<bar> \<le> 1 / 20 \<and> (\<exists>n::int. toFixed 1 x = of_int n / 10)"
proof -
  have eq: "toFixed 1 x = of_int \<lfloor>x * 10 + 1 / 2\<rfloor> / 10"
    using assms by (rule toFixed_1_nonneg)
  define n where "n = \<lfloor>x * 10 + 1 / 2\<rfloor>"
  have up: "real_of_int n \<le> x * 10 + 1 / 2" unfolding n_def by (rule of_int_floor_le)
  have lo: "x * 10 + 1 / 2 < real_of_int n + 1" unfolding n_def by linarith
  have "real_of_int n / 10 - x \<le> 1 / 20" using up by simp
  moreover have "x - real_of_int n / 10 \<le> 1 / 20" using lo by simp
  ultimately have "\<bar>real_of_int n / 10 - x\<bar> \<le> 1 / 20" by linarith
  then show ?thesis unfolding eq n_def [symmetric] by blast
qed

lemma deltas_monotone:
  assumes "length cpus1 = length cpus0"
    and "\<forall>i<length cpus1. times_le (cpus0 ! i) (cpus1 ! i)"
  shows "0 \<le> idle_delta (currentCpuTicks cpus0) (currentCpuTicks cpus1) \<and>
         idle_delta (currentCpuTicks cpus0) (currentCpuTicks cpus1)
           \<le> total_delta (currentCpuTicks cpus0) (currentCpuTicks cpus1)"
proof -
  let ?c0 = "currentCpuTicks cpus0" and ?c1 = "currentCpuTicks cpus1"
  have len: "length ?c1 = length cpus1"
    by (simp add: currentCpuTicks_def)
  have pt: "0 \<le> tick_idle (?c1 ! i) - tick_idle (?c0 ! i) \<and>
            tick_idle (?c1 ! i) - tick_idle (?c0 ! i) \<le> tick_total (?c1 ! i) - tick_total (?c0 ! i)"
    if "i < length cpus1" for i
  proof -
    from that assms(2) have "times_le (cpus0 ! i) (cpus1 ! i)" by blast
    with that assms(1) show ?thesis
      by (simp add: currentCpuTicks_def times_le_def currentTick_def)
  qed
  have "0 \<le> idle_delta ?c0 ?c1"
    unfolding idle_delta_def len by (rule sum_nonneg) (use pt in auto)
  moreover have "idle_delta ?c0 ?c1 \<le> total_delta ?c0 ?c1"
    unfolding idle_delta_def total_delta_def len by (rule sum_mono) (use pt in auto)
  ultimately show ?thesis by blast
qed

lemma currentCpuTicks_idle_and_total: "currentCpuTicks cpus = map idle_and_total cpus"
  by (simp add: currentCpuTicks_def idle_and_total_def currentTick_def)


lemma parseFloat_range:
  assumes "0 \<le> d" and "d \<le> 100"
  shows "0 \<le> parseFloat d \<and> parseFloat d \<le> 100 \<and> \<bar>parseFloat d - d\<bar> \<le> 100 / 2 ^ 53"
proof -
  have "0 \<le> fl d" using assms(1) by (rule fl_nonneg)
  moreover have "fl d \<le> of_int 100" using assms(2) by (intro fl_le_int) simp_all
  moreover have "\<bar>fl d - d\<bar> \<le> 100 / 2 ^ 53"
  proof -
    have "\<bar>fl d - d\<bar> \<le> \<bar>d\<bar> / 2 ^ 53" by (rule fl_error)
    also have "\<dots> \<le> 100 / 2 ^ 53" using assms by (intro divide_right_mono) simp_all
    finally show ?thesis .
  qed
  ultimately show ?thesis by (simp add: parseFloat_def)
qed

text \<open>
  The three rounded operations of the utilisation formula, for an idle share between
  0 and 1: the result stays between 0 and 100 and is within \<open>300 / 2^53\<close> of the exact
  value.
\<close>

lemma rounded_formula:
  assumes "0 \<le> r" and "r \<le> 1"
  shows "0 \<le> fl (100 - fl (fl r * 100)) \<and> fl (100 - fl (fl r * 100)) \<le> 100 \<and>
         \<bar>fl (100 - fl (fl r * 100)) - 100 * (1 - r)\<bar> \<le> 300 / 2 ^ 53"
proof -
  define q where "q = fl r"
  define p where "p = fl (q * 100)"
  define x where "x = fl (100 - p)"
  have q0: "0 \<le> q" unfolding q_def using assms(1) by (rule fl_nonneg)
  have q1: "q \<le> 1" using fl_le_int [of r 1] assms(2) by (simp add: q_def)
  have qe: "\<bar>q - r\<bar> \<le> 1 / 2 ^ 53"
  proof -
    have "\<bar>fl r - r\<bar> \<le> \<bar>r\<bar> / 2 ^ 53" by (rule fl_error)
    also have "\<dots> \<le> 1 / 2 ^ 53" using assms by (intro divide_right_mono) simp_all
    finally show ?thesis by (simp add: q_def)
  qed
  have p0: "0 \<le> p" unfolding p_def using q0 by (intro fl_nonneg) simp
  have p1: "p \<le> 100" using fl_le_int [of "q * 100" 100] q1 by (simp add: p_def)
  have pe: "\<bar>p - q * 100\<bar> \<le> 100 / 2 ^ 53"
  proof -
    have "\<bar>fl (q * 100) - q * 100\<bar> \<le> \<bar>q * 100\<bar> / 2 ^ 53" by (rule fl_error)
    also have "\<dots> \<le> 100 / 2 ^ 53" using q0 q1 by (intro divide_right_mono) simp_all
    finally show ?thesis by (simp add: p_def)
  qed
  have x0: "0 \<le> x" unfolding x_def using p1 by (intro fl_nonneg) simp
  have x1: "x \<le> 100" using fl_le_int [of "100 - p" 100] p0 by (simp add: x_def)
  have xe: "\<bar>x - (100 - p)\<bar> \<le> 100 / 2 ^ 53"
  proof -
    have "\<bar>fl (100 - p) - (100 - p)\<bar> \<le> \<bar>100 - p\<bar> / 2 ^ 53" by (rule fl_error)
    also have "\<dots> \<le> 100 / 2 ^ 53" using p0 p1 by (intro divide_right_mono) simp_all
    finally show ?thesis by (simp add: x_def)
  qed
  have "\<bar>x - 100 * (1 - r)\<bar> \<le> \<bar>x - (100 - p)\<bar> + \<bar>p - q * 100\<bar> + 100 * \<bar>q - r\<bar>"
  proof -
    have "x - 100 * (1 - r) = (x - (100 - p)) + (q * 100 - p) + 100 * (r - q)"
      by (simp add: algebra_simps)
    then have "\<bar>x - 100 * (1 - r)\<bar> = \<bar>(x - (100 - p)) + (q * 100 - p) + 100 * (r - q)\<bar>"
      by (simp only:)
    also have "\<dots> \<le> \<bar>(x - (100 - p)) + (q * 100 - p)\<bar> + \<bar>100 * (r - q)\<bar>"
      by (rule abs_triangle_ineq)
    finally have e1: "\<bar>x - 100 * (1 - r)\<bar>
        \<le> \<bar>(x - (100 - p)) + (q * 100 - p)\<bar> + \<bar>100 * (r - q)\<bar>" .
    have e2: "\<bar>(x - (100 - p)) + (q * 100 - p)\<bar> \<le> \<bar>x - (100 - p)\<bar> + \<bar>q * 100 - p\<bar>"
      by (rule abs_triangle_ineq)
    have "\<bar>100 * (r - q)\<bar> = \<bar>100::real\<bar> * \<bar>r - q\<bar>"
      by (rule abs_mult)
    then have e3: "\<bar>100 * (r - q)\<bar> = 100 * \<bar>q - r\<bar>"
      by (simp add: abs_minus_commute)
    have e4: "\<bar>q * 100 - p\<bar> = \<bar>p - q * 100\<bar>"
      by (rule abs_minus_commute)
    from e1 e2 show ?thesis
      unfolding e3 e4 by (rule order_trans [OF _ add_right_mono])
  qed
  also have "\<dots> \<le> 100 / 2 ^ 53 + 100 / 2 ^ 53 + 100 * (1 / 2 ^ 53)"
    using xe pe qe by (intro add_mono mult_left_mono) simp_all
  also have "\<dots> = 300 / 2 ^ 53" by simp
  finally have "\<bar>x - 100 * (1 - r)\<bar> \<le> 300 / 2 ^ 53" .
  with x0 x1 show ?thesis unfolding x_def p_def q_def by blast
qed


lemma calculateCpuPercent_with_state:
  assumes "length cpus \<le> length prev"
  shows "calculateCpuPercent (Some prev) cpus =
     (if 0 < total_delta prev (map idle_and_total cpus) then
        Inr (parseFloat (toFixed 1 (fl (100 -
               fl (fl (real_of_int (idle_delta prev (map idle_and_total cpus))
                        / real_of_int (total_delta prev (map idle_and_total cpus))) * 100)))))
      else Inr 0,
      Some (map idle_and_total cpus))"
proof -
  have len: "length (currentCpuTicks cpus) \<le> length prev"
    using assms by (simp add: currentCpuTicks_def)
  show ?thesis
    unfolding calculateCpuPercent_def
    by (simp add: difference_loop_deltas [OF len] Let_def)
      (simp add: currentCpuTicks_idle_and_total)
qed


lemma fl_examples:
  "fl (49 / 80) = 2758454771764429 / 4503599627370496"
  "fl (2758454771764429 / 4503599627370496 * 100) = 8620171161763841 / 140737488355328"
  "fl (100 - 8620171161763841 / 140737488355328) = 5453577673768959 / 140737488355328"
  "fl (387 / 10) = 2723270399675597 / 70368744177664"
  "fl (194 / 5) = 2730307274093363 / 70368744177664"
  "fl (3 / 8) = 3 / 8" "fl (75 / 2) = 75 / 2" "fl (125 / 2) = 125 / 2"
  "fl (1 / 4) = 1 / 4" "fl 25 = 25"
  "fl (19 / 9) = 4753799606668857 / 2251799813685248"
  "fl (4753799606668857 / 2251799813685248 * 100) = 7427811885420089 / 35184372088832"
  "fl (100 - 7427811885420089 / 35184372088832) = - (3909374676536889 / 35184372088832)"
  "fl (- (1111 / 10)) = - (3908983739069235 / 35184372088832)"
  by (simp_all add: fl_def binade_def bit_length.simps rne_def)

lemma sample_ticks:
  "map idle_and_total sample_before =
     [\<lparr> tick_idle = 840, tick_total = 1000 \<rparr>, \<lparr> tick_idle = 680, tick_total = 1000 \<rparr>]"
  "map idle_and_total sample_after =
     [\<lparr> tick_idle = 1060, tick_total = 1300 \<rparr>, \<lparr> tick_idle = 760, tick_total = 1500 \<rparr>]"
  "map idle_and_total tie_before = [\<lparr> tick_idle = 0, tick_total = 0 \<rparr>]"
  "map idle_and_total tie_after = [\<lparr> tick_idle = 49, tick_total = 80 \<rparr>]"
  "map idle_and_total backwards_before = [\<lparr> tick_idle = 0, tick_total = 1000 \<rparr>]"
  "map idle_and_total backwards_after = [\<lparr> tick_idle = 1900, tick_total = 1900 \<rparr>]"
  by (simp_all add: idle_and_total_def sample_before_def sample_after_def tie_before_def
      tie_after_def backwards_before_def backwards_after_def)

lemma sample_deltas:
  "idle_delta [\<lparr> tick_idle = 840, tick_total = 1000 \<rparr>, \<lparr> tick_idle = 680, tick_total = 1000 \<rparr>]
     [\<lparr> tick_idle = 1060, tick_total = 1300 \<rparr>, \<lparr> tick_idle = 760, tick_total = 1500 \<rparr>] = 300"
  "total_delta [\<lparr> tick_idle = 840, tick_total = 1000 \<rparr>, \<lparr> tick_idle = 680, tick_total = 1000 \<rparr>]
     [\<lparr> tick_idle = 1060, tick_total = 1300 \<rparr>, \<lparr> tick_idle = 760, tick_total = 1500 \<rparr>] = 800"
  "total_delta [\<lparr> tick_idle = 1060, tick_total = 1300 \<rparr>, \<lparr> tick_idle = 760, tick_total = 1500 \<rparr>]
     [\<lparr> tick_idle = 1060, tick_total = 1300 \<rparr>, \<lparr> tick_idle = 760, tick_total = 1500 \<rparr>] = 0"
  "total_delta [\<lparr> tick_idle = 1060, tick_total = 1300 \<rparr>, \<lparr> tick_idle = 760, tick_total = 1500 \<rparr>]
     [\<lparr> tick_idle = 840, tick_total = 1000 \<rparr>, \<lparr> tick_idle = 680, tick_total = 1000 \<rparr>] = - 800"
  "idle_delta [\<lparr> tick_idle = 0, tick_total = 0 \<rparr>] [\<lparr> tick_idle = 49, tick_total = 80 \<rparr>] = 49"
  "total_delta [\<lparr> tick_idle = 0, tick_total = 0 \<rparr>] [\<lparr> tick_idle = 49, tick_total = 80 \<rparr>] = 80"
  "idle_delta [\<lparr> tick_idle = 0, tick_total = 1000 \<rparr>] [\<lparr> tick_idle = 1900, tick_total = 1900 \<rparr>] = 1900"
  "total_delta [\<lparr> tick_idle = 0, tick_total = 1000 \<rparr>] [\<lparr> tick_idle = 1900, tick_total = 1900 \<rparr>] = 900"
  by (simp_all add: idle_delta_def total_delta_def numeral_2_eq_2)

text \<open>
  Claim C4, as amended. Take two consecutive samples of the same logical CPUs: the
  earlier call returned without error (so the stored state is the earlier reading), no
  counter of any CPU went down in between, and \<open>total_delta > 0\<close>, the deltas being the
  sums over all CPUs. Then the later call stores the later reading and reports the
  double nearest to \<open>n / 10\<close> for an integer \<open>n\<close> between 0 and 1000. That tenth is
  within 0.05 of the result of the three double operations, which is within
  \<open>300 / 2^53\<close> of the exact \<open>100 * (1 - idle_delta / total_delta)\<close>; so the reported
  value lies between 0 and 100 and within \<open>0.05 + 400 / 2^53\<close> of the exact value. It
  is the exact value rounded to one decimal unless that value is within \<open>300 / 2^53\<close>
  of the middle between two tenths.
\<close>

theorem cpu_percent_within_rounding:
  assumes "calculateCpuPercent st0 cpus0 = (Inr u0, st1)"
    and "length cpus1 = length cpus0"
    and "\<forall>i<length cpus1. times_le (cpus0 ! i) (cpus1 ! i)"
    and "0 < total_delta (map idle_and_total cpus0) (map idle_and_total cpus1)"
  shows "\<exists>u n. calculateCpuPercent st1 cpus1 = (Inr u, Some (map idle_and_total cpus1)) \<and>
           st1 = Some (map idle_and_total cpus0) \<and>
           u = parseFloat (real_of_int n / 10) \<and> 0 \<le> n \<and> n \<le> 1000 \<and>
           \<bar>real_of_int n / 10
              - 100 * (1 - real_of_int (idle_delta (map idle_and_total cpus0) (map idle_and_total cpus1))
                           / real_of_int (total_delta (map idle_and_total cpus0) (map idle_and_total cpus1)))\<bar>
             \<le> 1 / 20 + 300 / 2 ^ 53 \<and>
           \<bar>u - 100 * (1 - real_of_int (idle_delta (map idle_and_total cpus0) (map idle_and_total cpus1))
                           / real_of_int (total_delta (map idle_and_total cpus0) (map idle_and_total cpus1)))\<bar>
             \<le> 1 / 20 + 400 / 2 ^ 53 \<and>
           0 \<le> u \<and> u \<le> 100"
proof -
  let ?c0 = "map idle_and_total cpus0" and ?c1 = "map idle_and_total cpus1"
  define i where "i = real_of_int (idle_delta ?c0 ?c1)"
  define t where "t = real_of_int (total_delta ?c0 ?c1)"
  define r where "r = i / t"
  define x where "x = fl (100 - fl (fl r * 100))"
  define n where "n = \<lfloor>x * 10 + 1 / 2\<rfloor>"
  define u where "u = parseFloat (real_of_int n / 10)"
  have st1: "st1 = Some ?c0"
    using state_after_sample [OF assms(1)] by (simp add: currentCpuTicks_idle_and_total)
  have t_pos: "0 < t"
    using assms(4) by (simp add: t_def)
  have "0 \<le> i" "i \<le> t"
    using deltas_monotone [OF assms(2,3)]
    by (simp_all add: i_def t_def currentCpuTicks_idle_and_total)
  with t_pos have r: "0 \<le> r" "r \<le> 1"
    by (simp_all add: r_def)
  from rounded_formula [OF r] have x: "0 \<le> x" "x \<le> 100" "\<bar>x - 100 * (1 - r)\<bar> \<le> 300 / 2 ^ 53"
    by (simp_all add: x_def)
  from x have x_small: "x < 10 ^ 21" by simp
  have d: "toFixed 1 x = real_of_int n / 10"
    using toFixed_1_nonneg [OF x(1) x_small] by (simp add: n_def)
  from toFixed_1_range [OF x(1,2)] have d_range: "0 \<le> real_of_int n / 10" "real_of_int n / 10 \<le> 100"
    unfolding d by blast+
  then have n_range: "0 \<le> n" "n \<le> 1000"
    by simp_all
  from toFixed_1_nearest [OF x(1) x_small] have d_near: "\<bar>real_of_int n / 10 - x\<bar> \<le> 1 / 20"
    unfolding d by blast
  from parseFloat_range [OF d_range] have u: "0 \<le> u" "u \<le> 100" "\<bar>u - real_of_int n / 10\<bar> \<le> 100 / 2 ^ 53"
    by (simp_all add: u_def)
  have n_close: "\<bar>real_of_int n / 10 - 100 * (1 - r)\<bar> \<le> 1 / 20 + 300 / 2 ^ 53"
    using d_near x(3) by linarith
  have u_close: "\<bar>u - 100 * (1 - r)\<bar> \<le> 1 / 20 + 400 / 2 ^ 53"
    using n_close u(3) by linarith
  have len: "length cpus1 \<le> length ?c0"
    using assms(2) by simp
  have run: "calculateCpuPercent st1 cpus1 = (Inr u, Some ?c1)"
    unfolding st1 calculateCpuPercent_with_state [OF len]
    using assms(4) by (simp add: u_def d [symmetric] x_def r_def i_def t_def)
  from run st1 n_range n_close u_close u(1,2) show ?thesis
    unfolding r_def i_def t_def u_def by blast
qed

text \<open>
  Two readings of two CPUs with \<open>idle_delta = 300\<close> and \<open>total_delta = 800\<close>: the
  first call reports 0 and stores the idle and total ticks 840/1000 and 680/1000, the
  second reports 62.5 and stores 1060/1300 and 760/1500.
\<close>

theorem cpu_percent_within_rounding_witness:
  "calculateCpuPercent None sample_before =
     (Inr 0, Some [\<lparr> tick_idle = 840, tick_total = 1000 \<rparr>, \<lparr> tick_idle = 680, tick_total = 1000 \<rparr>]) \<and>
   calculateCpuPercent
     (Some [\<lparr> tick_idle = 840, tick_total = 1000 \<rparr>, \<lparr> tick_idle = 680, tick_total = 1000 \<rparr>])
     sample_after =
     (Inr (125 / 2),
      Some [\<lparr> tick_idle = 1060, tick_total = 1300 \<rparr>, \<lparr> tick_idle = 760, tick_total = 1500 \<rparr>])"
proof -
  have first: "calculateCpuPercent None sample_before = (Inr 0, Some (map idle_and_total sample_before))"
    by (simp add: calculateCpuPercent_def currentCpuTicks_idle_and_total)
  have len: "length sample_after = length sample_before"
    by (simp add: sample_before_def sample_after_def)
  have mono: "\<forall>i<length sample_after. times_le (sample_before ! i) (sample_after ! i)"
    by (simp add: sample_before_def sample_after_def times_le_def numeral_2_eq_2 less_Suc_eq)
  have pos: "0 < total_delta (map idle_and_total sample_before) (map idle_and_total sample_after)"
    by (simp add: sample_ticks sample_deltas)
  from cpu_percent_within_rounding [OF first len mono pos]
  obtain u n where run: "calculateCpuPercent (Some (map idle_and_total sample_before)) sample_after =
        (Inr u, Some (map idle_and_total sample_after))"
    by blast
  have len': "length sample_after = length (map idle_and_total sample_before)"
    using len by simp
  have "calculateCpuPercent (Some (map idle_and_total sample_before)) sample_after =
        (Inr (125 / 2), Some (map idle_and_total sample_after))"
    unfolding calculateCpuPercent_with_state [OF eq_refl [OF len']]
    by (simp add: sample_ticks sample_deltas toFixed_def parseFloat_def
          fl_def binade_def bit_length.simps rne_def)
  with run first show ?thesis
    by (simp add: sample_ticks)
qed

text \<open>
  Claim C4 fails as stated: with \<open>idle_delta = 49\<close> and \<open>total_delta = 80\<close> the exact
  utilisation is 38.75, which rounds to 38.8, and the code reports the double nearest
  to 38.7, because the doubles give \<open>100 - 0.6125 * 100\<close> a value just below 38.75.
\<close>

theorem cpu_percent_tie_rounds_down:
  "calculateCpuPercent (Some [\<lparr> tick_idle = 0, tick_total = 0 \<rparr>]) tie_after =
     (Inr (2723270399675597 / 70368744177664), Some [\<lparr> tick_idle = 49, tick_total = 80 \<rparr>]) \<and>
   idle_delta [\<lparr> tick_idle = 0, tick_total = 0 \<rparr>] [\<lparr> tick_idle = 49, tick_total = 80 \<rparr>] = 49 \<and>
   total_delta [\<lparr> tick_idle = 0, tick_total = 0 \<rparr>] [\<lparr> tick_idle = 49, tick_total = 80 \<rparr>] = 80 \<and>
   toFixed 1 (100 * (1 - 49 / 80)) = 194 / 5 \<and>
   parseFloat (194 / 5) = 2730307274093363 / 70368744177664 \<and>
   (2723270399675597 / 70368744177664 :: real) < 2730307274093363 / 70368744177664 \<and>
   (2723270399675597 / 70368744177664 :: real) < 194 / 5 - 1 / 20"
proof -
  have "calculateCpuPercent (Some [\<lparr> tick_idle = 0, tick_total = 0 \<rparr>]) tie_after =
     (Inr (2723270399675597 / 70368744177664), Some [\<lparr> tick_idle = 49, tick_total = 80 \<rparr>])"
  proof -
    have "length tie_after \<le> length [\<lparr> tick_idle = 0, tick_total = 0 \<rparr>]"
      by (simp add: tie_after_def)
    then show ?thesis
      unfolding calculateCpuPercent_with_state [OF \<open>length tie_after \<le> length [\<lparr> tick_idle = 0, tick_total = 0 \<rparr>]\<close>]
      by (simp add: sample_ticks sample_deltas toFixed_def parseFloat_def
          fl_def binade_def bit_length.simps rne_def)
  qed
  moreover have "toFixed 1 (100 * (1 - 49 / 80)) = 194 / 5"
    by (simp add: toFixed_def)
  ultimately show ?thesis
    by (simp add: sample_deltas parseFloat_def fl_examples)
qed




section \<open>Properties of the identity resolver\<close>





lemma getMachineId_cases:
  "getMachineId w =
     (case read_first w os_id_paths of
        Some mid \<Rightarrow> (mid, [], w)
      | None \<Rightarrow>
          if existsSync w persistencePath then
            (case readFileSync w persistencePath of
               Inr content \<Rightarrow> (trim content, [], w)
             | Inl e \<Rightarrow> (uuid_source w (uuid_drawn w), [Log (LogMachineIdError (message e))],
                          w \<lparr> uuid_drawn := Suc (uuid_drawn w) \<rparr>))
          else
            (case persist (w \<lparr> uuid_drawn := Suc (uuid_drawn w) \<rparr>) persistencePath
                    (uuid_source w (uuid_drawn w)) of
               Inr w2 \<Rightarrow> (uuid_source w (uuid_drawn w), [], w2)
             | Inl (e, w2) \<Rightarrow>
                 (uuid_source w2 (uuid_drawn w2), [Log (LogMachineIdError (message e))],
                  w2 \<lparr> uuid_drawn := Suc (uuid_drawn w2) \<rparr>)))"
  by (simp add: getMachineId_def read_or_create_def randomUUID_def Let_def
      split: option.splits sum.splits prod.splits)







lemma first_call_directory_only:
  "getMachineId world_directory_only =
     (uuid_b, [Log (LogMachineIdError ''EACCES'')],
      \<lparr> fs_nodes = [''/var/lib/sylon'' \<mapsto> Directory],
        fs_can_write = (\<lambda>p. p = ''/var/lib/sylon''), uuid_source = example_uuids,
        uuid_drawn = 2 \<rparr>)"
  by (simp add: getMachineId_cases world_directory_only_def os_id_paths_def existsSync_def
      persistencePath_def persist_def dirname_def mkdirSync_def writeFileSync_def
      example_uuids_def Let_def)












section \<open>Properties of the sampler\<close>

lemma example_identity:
  "getMachineId world_with_machine_id =
     (''4c4c4544004a3510804ab7c04f563432'', [], world_with_machine_id)"
  by (simp add: getMachineId_cases os_id_paths_def world_with_machine_id_def existsSync_def
      readFileSync_def trim_def is_whitespace_def)

lemma example_memory: "memPercent 2000000000 8000000000 = Some 25"
  by (simp add: memPercent_def parseFloat_def toFixed_def fl_def binade_def bit_length.simps rne_def)

lemma example_collect:
  "collectMetrics example_os example_state =
     (Inr example_snapshot, [Log LogDiskSimulated],
      \<lparr> st_world = world_with_machine_id,
        st_previousCpuTicks =
          Some [\<lparr> tick_idle = 840, tick_total = 1000 \<rparr>, \<lparr> tick_idle = 680, tick_total = 1000 \<rparr>] \<rparr>)"
  by (simp add: collectMetrics_def example_state_def example_identity calculateCpuPercent_def
      example_os_def getDiskUsage_def example_snapshot_def strip_millis_def is_digit_def
      example_memory currentCpuTicks_idle_and_total sample_ticks)
    (simp add: sample_before_def)


text \<open>
  Claim C9. Every snapshot \<^verbatim>\<open>collectMetrics\<close> produces carries the disk record of
  \<^verbatim>\<open>getDiskUsage\<close>, in which used plus free is the total and the percentage is
  \<open>100 * used / total\<close> rounded to one decimal.
\<close>

theorem disk_fields_consistent:
  "collectMetrics os st = (Inr snap, events, st') \<Longrightarrow>
   snap_disk snap = fst getDiskUsage \<and>
   disk_used (snap_disk snap) + disk_free (snap_disk snap) = disk_total (snap_disk snap) \<and>
   disk_percent (snap_disk snap) =
     toFixed 1 (100 * real_of_int (disk_used (snap_disk snap))
                  / real_of_int (disk_total (snap_disk snap)))"
proof -
  assume run: "collectMetrics os st = (Inr snap, events, st')"
  have disk: "snap_disk snap = fst getDiskUsage"
    using run
    by (auto simp: collectMetrics_def Let_def split: prod.splits sum.splits) (metis fst_conv)
  have "toFixed 1 (100 * real_of_int 40000000000 / real_of_int 100000000000) = 40"
    by (simp add: toFixed_def)
  then show ?thesis
    unfolding disk by (simp add: getDiskUsage_def)
qed

text \<open>The snapshot of the example machine: 40 GB used of 100 GB, 40 percent.\<close>

theorem disk_fields_consistent_witness:
  "fst (collectMetrics example_os example_state) = Inr example_snapshot \<and>
   disk_used (snap_disk example_snapshot) + disk_free (snap_disk example_snapshot)
     = disk_total (snap_disk example_snapshot) \<and>
   disk_percent (snap_disk example_snapshot) = 40 \<and>
   toFixed 1 (100 * real_of_int (disk_used (snap_disk example_snapshot))
                / real_of_int (disk_total (snap_disk example_snapshot))) = 40"
proof -
  have pct: "disk_percent (snap_disk example_snapshot) = 40"
    by (simp add: example_snapshot_def)
  note inst = disk_fields_consistent [OF example_collect, THEN conjunct2]
  have total: "disk_used (snap_disk example_snapshot) + disk_free (snap_disk example_snapshot)
     = disk_total (snap_disk example_snapshot)"
    using inst by (rule conjunct1)
  have "disk_percent (snap_disk example_snapshot) =
      toFixed 1 (100 * real_of_int (disk_used (snap_disk example_snapshot))
                / real_of_int (disk_total (snap_disk example_snapshot)))"
    using inst by (rule conjunct2)
  with pct have rounded: "toFixed 1 (100 * real_of_int (disk_used (snap_disk example_snapshot))
                / real_of_int (disk_total (snap_disk example_snapshot))) = 40"
    by (simp only:)
  have run: "fst (collectMetrics example_os example_state) = Inr example_snapshot"
    by (simp only: example_collect fst_conv)
  from run total pct rounded show ?thesis
    by (intro conjI)
qed

section \<open>Properties of the agent loop\<close>




















end
